theory Spec2Isabelle
  imports Complex_Main "HOL-Library.Char_ord" "HOL-Library.List_Lexorder"
begin

section \<open>Text primitives\<close>

text \<open>
  Python \<^verbatim>\<open>str\<close> and \<^verbatim>\<open>bytes\<close> values are both modelled as lists of 8-bit
  characters; text is taken to be ASCII, which is all that the format strings, the page
  markers and the key test of the source look at.
\<close>

type_synonym bytes = string

definition is_digit :: "char \<Rightarrow> bool" where
  "is_digit c \<longleftrightarrow> c \<in> set ''0123456789''"

definition digit_val :: "char \<Rightarrow> nat" where
  "digit_val c =
     (case map_of (zip ''0123456789'' [0, 1, 2, 3, 4, 5, 6, 7, 8, 9]) c of
        Some n \<Rightarrow> n | None \<Rightarrow> 0)"

definition digit_char :: "nat \<Rightarrow> char" where
  "digit_char n = ''0123456789'' ! (n mod 10)"

text \<open>Python's \<^verbatim>\<open>str(n)\<close> for a non-negative integer: its decimal digits.\<close>

fun str_nat :: "nat \<Rightarrow> string" where
  "str_nat n = (if n < 10 then [digit_char n] else str_nat (n div 10) @ [digit_char n])"

declare str_nat.simps [simp del]

text \<open>
  The characters for which \<^verbatim>\<open>str.isspace\<close> holds, and which the regular
  expression \<^verbatim>\<open>\s\<close> matches, among ASCII: tab, line feed, vertical tab, form feed,
  carriage return, the four separators 0x1C..0x1F, and the blank.
\<close>

definition is_space :: "char \<Rightarrow> bool" where
  "is_space c \<longleftrightarrow>
     c \<in> set [CHR 0x09, CHR 0x0A, CHR 0x0B, CHR 0x0C, CHR 0x0D,
               CHR 0x1C, CHR 0x1D, CHR 0x1E, CHR 0x1F, CHR '' '']"

definition lower_char :: "char \<Rightarrow> char" where
  "lower_char c =
     (case map_of (zip ''ABCDEFGHIJKLMNOPQRSTUVWXYZ'' ''abcdefghijklmnopqrstuvwxyz'') c of
        Some l \<Rightarrow> l | None \<Rightarrow> c)"

text \<open>\<^verbatim>\<open>s.lower()\<close>\<close>

definition lower :: "string \<Rightarrow> string" where
  "lower s = map lower_char s"

text \<open>\<^verbatim>\<open>s.startswith(p)\<close>, \<^verbatim>\<open>s.endswith(p)\<close> and \<^verbatim>\<open>p in s\<close> on strings.\<close>

definition startswith :: "string \<Rightarrow> string \<Rightarrow> bool" where
  "startswith s p \<longleftrightarrow> take (length p) s = p"

definition endswith :: "string \<Rightarrow> string \<Rightarrow> bool" where
  "endswith s p \<longleftrightarrow> length p \<le> length s \<and> drop (length s - length p) s = p"

fun str_contains :: "string \<Rightarrow> string \<Rightarrow> bool" where
  "str_contains p [] \<longleftrightarrow> p = []"
| "str_contains p (c # cs) \<longleftrightarrow> startswith (c # cs) p \<or> str_contains p cs"

text \<open>\<^verbatim>\<open>sep.join(parts)\<close>\<close>

fun join :: "string \<Rightarrow> string list \<Rightarrow> string" where
  "join sep [] = []"
| "join sep [x] = x"
| "join sep (x # y # ys) = x @ sep @ join sep (y # ys)"

text \<open>
  \<^verbatim>\<open>sorted(xs, key=k, reverse=True)\<close>: descending by key, and stable, so that
  elements with equal keys keep the order they had in \<^verbatim>\<open>xs\<close>.
\<close>

definition sorted_reverse :: "('a \<Rightarrow> 'k::linorder) \<Rightarrow> 'a list \<Rightarrow> 'a list" where
  "sorted_reverse k xs = rev (sort_key k (rev xs))"

section \<open>JSON values\<close>

text \<open>
  What \<^verbatim>\<open>json.loads\<close> returns. An object is the list of its items in insertion
  order; a Python \<^verbatim>\<open>dict\<close> holds each key once.
\<close>

datatype json =
    JNull
  | JBool bool
  | JInt int
  | JFloat real
  | JStr string
  | JArr "json list"
  | JObj "(string \<times> json) list"

section \<open>Dates: \<^verbatim>\<open>datetime.strptime\<close> and \<^verbatim>\<open>strftime\<close>\<close>

text \<open>
  The calendar date of a \<^verbatim>\<open>datetime\<close>. None of the formats of the source has a
  time directive, so the time of day is always midnight and is left out.
\<close>

record datetime =
  year :: nat
  month :: nat
  day :: nat

text \<open>
  The library compiles a format into a regular expression: a directive becomes a group of
  alternatives, a run of white space becomes \<^verbatim>\<open>\s+\<close>, any other character stands for
  itself. Only the directives that the formats of the source use are modelled; every
  other one is refused, as is a percent sign at the end.
\<close>

datatype directive = Dir_Y | Dir_m | Dir_d | Dir_b | Dir_B | Whitespace | Literal char

definition directive_of :: "char \<Rightarrow> directive option" where
  "directive_of c =
     (if c = CHR ''Y'' then Some Dir_Y
      else if c = CHR ''m'' then Some Dir_m
      else if c = CHR ''d'' then Some Dir_d
      else if c = CHR ''b'' then Some Dir_b
      else if c = CHR ''B'' then Some Dir_B
      else None)"

definition add_char :: "char \<Rightarrow> directive list \<Rightarrow> directive list" where
  "add_char c ds =
     (if is_space c then (case ds of Whitespace # _ \<Rightarrow> ds | _ \<Rightarrow> Whitespace # ds)
      else Literal c # ds)"

fun compile_format :: "string \<Rightarrow> directive list option" where
  "compile_format [] = Some []"
| "compile_format [c] = (if c = CHR ''%'' then None else Some (add_char c []))"
| "compile_format (c # d # cs) =
     (if c = CHR ''%'' then
        (case directive_of d of
           None \<Rightarrow> None
         | Some x \<Rightarrow> map_option ((#) x) (compile_format cs))
      else map_option (add_char c) (compile_format (d # cs)))"

text \<open>\<^verbatim>\<open>%Y\<close> is \<^verbatim>\<open>\d\d\d\d\<close>.\<close>

fun match_Y :: "string \<Rightarrow> (nat \<times> string) option" where
  "match_Y (a # b # c # d # rest) =
     (if is_digit a \<and> is_digit b \<and> is_digit c \<and> is_digit d
      then Some (digit_val a * 1000 + digit_val b * 100 + digit_val c * 10 + digit_val d, rest)
      else None)"
| "match_Y _ = None"

text \<open>\<^verbatim>\<open>%m\<close> is \<^verbatim>\<open>1[0-2]|0[1-9]|[1-9]\<close>, the alternatives tried from the left.\<close>

fun match_m :: "string \<Rightarrow> (nat \<times> string) option" where
  "match_m (a # b # rest) =
     (if a = CHR ''1'' \<and> b \<in> set ''012'' then Some (10 + digit_val b, rest)
      else if a = CHR ''0'' \<and> b \<in> set ''123456789'' then Some (digit_val b, rest)
      else if a \<in> set ''123456789'' then Some (digit_val a, b # rest)
      else None)"
| "match_m [a] = (if a \<in> set ''123456789'' then Some (digit_val a, []) else None)"
| "match_m [] = None"

text \<open>\<^verbatim>\<open>%d\<close> is \<^verbatim>\<open>3[0-1]|[1-2]\d|0[1-9]|[1-9]| [1-9]\<close>.\<close>

fun match_d :: "string \<Rightarrow> (nat \<times> string) option" where
  "match_d (a # b # rest) =
     (if a = CHR ''3'' \<and> b \<in> set ''01'' then Some (30 + digit_val b, rest)
      else if a \<in> set ''12'' \<and> is_digit b then Some (digit_val a * 10 + digit_val b, rest)
      else if a = CHR ''0'' \<and> b \<in> set ''123456789'' then Some (digit_val b, rest)
      else if a \<in> set ''123456789'' then Some (digit_val a, b # rest)
      else if a = CHR '' '' \<and> b \<in> set ''123456789'' then Some (digit_val b, rest)
      else None)"
| "match_d [a] = (if a \<in> set ''123456789'' then Some (digit_val a, []) else None)"
| "match_d [] = None"

text \<open>
  The month names of the C locale, in lower case as the library keeps them. The names of
  a directive are tried longest first (\<^verbatim>\<open>sorted(to_convert, key=len, reverse=True)\<close>)
  and matched without regard to case.
\<close>

definition a_month :: "string list" where
  "a_month = [''jan'', ''feb'', ''mar'', ''apr'', ''may'', ''jun'',
              ''jul'', ''aug'', ''sep'', ''oct'', ''nov'', ''dec'']"

definition f_month :: "string list" where
  "f_month = [''january'', ''february'', ''march'', ''april'', ''may'', ''june'', ''july'',
              ''august'', ''september'', ''october'', ''november'', ''december'']"

fun match_names :: "string list \<Rightarrow> string \<Rightarrow> (string \<times> string) option" where
  "match_names [] s = None"
| "match_names (n # ns) s =
     (if lower (take (length n) s) = n then Some (n, drop (length n) s)
      else match_names ns s)"

text \<open>\<^verbatim>\<open>xs.index(x)\<close>, counted from one: the number of the month.\<close>

fun month_number :: "string \<Rightarrow> string list \<Rightarrow> nat" where
  "month_number x [] = 1"
| "month_number x (y # ys) = (if x = y then 1 else Suc (month_number x ys))"

definition match_month_name :: "string list \<Rightarrow> string \<Rightarrow> (nat \<times> string) option" where
  "match_month_name names s =
     (case match_names (sorted_reverse length names) s of
        None \<Rightarrow> None
      | Some (n, rest) \<Rightarrow> Some (month_number n names, rest))"

fun match_directive :: "directive \<Rightarrow> string \<Rightarrow> datetime \<Rightarrow> (datetime \<times> string) option" where
  "match_directive Dir_Y s dt = map_option (\<lambda>(v, rest). (dt\<lparr>year := v\<rparr>, rest)) (match_Y s)"
| "match_directive Dir_m s dt = map_option (\<lambda>(v, rest). (dt\<lparr>month := v\<rparr>, rest)) (match_m s)"
| "match_directive Dir_d s dt = map_option (\<lambda>(v, rest). (dt\<lparr>day := v\<rparr>, rest)) (match_d s)"
| "match_directive Dir_b s dt =
     map_option (\<lambda>(v, rest). (dt\<lparr>month := v\<rparr>, rest)) (match_month_name a_month s)"
| "match_directive Dir_B s dt =
     map_option (\<lambda>(v, rest). (dt\<lparr>month := v\<rparr>, rest)) (match_month_name f_month s)"
| "match_directive Whitespace s dt =
     (case s of
        [] \<Rightarrow> None
      | c # cs \<Rightarrow> if is_space c then Some (dt, dropWhile is_space cs) else None)"
| "match_directive (Literal l) s dt =
     (case s of
        [] \<Rightarrow> None
      | c # cs \<Rightarrow> if lower_char c = lower_char l then Some (dt, cs) else None)"

fun run_directives :: "directive list \<Rightarrow> string \<Rightarrow> datetime \<Rightarrow> (datetime \<times> string) option" where
  "run_directives [] s dt = Some (dt, s)"
| "run_directives (d # ds) s dt =
     (case match_directive d s dt of
        None \<Rightarrow> None
      | Some (dt', rest) \<Rightarrow> run_directives ds rest dt')"

definition is_leap :: "nat \<Rightarrow> bool" where
  "is_leap y \<longleftrightarrow> y mod 4 = 0 \<and> (y mod 100 \<noteq> 0 \<or> y mod 400 = 0)"

definition days_in_month :: "nat \<Rightarrow> nat \<Rightarrow> nat" where
  "days_in_month y m =
     (if m = 2 then (if is_leap y then 29 else 28)
      else if m \<in> set [4, 6, 9, 11] then 30 else 31)"

text \<open>The checks of the \<^verbatim>\<open>datetime\<close> constructor: a year from 1 to 9999, a day of the month.\<close>

definition valid_date :: "datetime \<Rightarrow> bool" where
  "valid_date dt \<longleftrightarrow>
     1 \<le> year dt \<and> year dt \<le> 9999 \<and> 1 \<le> month dt \<and> month dt \<le> 12 \<and>
     1 \<le> day dt \<and> day dt \<le> days_in_month (year dt) (month dt)"

text \<open>
  \<^verbatim>\<open>datetime.strptime(data_string, format)\<close>, with \<^verbatim>\<open>None\<close> for
  \<^verbatim>\<open>ValueError\<close>: the expression has to match at the start of the string and nothing
  may remain after it; a field the format does not mention keeps its default.

  The expression is matched here without backtracking, the leftmost alternative that
  matches being taken. In the formats of the source a day or a month is followed by a
  character that is not a digit, or by nothing, so a shorter alternative can never save a
  match that the longer one lost.
\<close>

definition strptime :: "string \<Rightarrow> string \<Rightarrow> datetime option" where
  "strptime data_string format =
     (case compile_format format of
        None \<Rightarrow> None
      | Some ds \<Rightarrow>
          (case run_directives ds data_string \<lparr>year = 1900, month = 1, day = 1\<rparr> of
             None \<Rightarrow> None
           | Some (dt, rest) \<Rightarrow> if rest = [] \<and> valid_date dt then Some dt else None))"

definition two_digits :: "nat \<Rightarrow> string" where
  "two_digits n = [digit_char (n div 10), digit_char n]"

text \<open>
  \<^verbatim>\<open>dt.strftime(format)\<close>. How \<^verbatim>\<open>%Y\<close> prints a year below 1000 depends on the
  C library (with or without leading zeros), so the rendering of the year is the
  parameter \<open>fmt_Y\<close>. A character that is not part of a directive is copied.
\<close>

fun strftime :: "(nat \<Rightarrow> string) \<Rightarrow> datetime \<Rightarrow> string \<Rightarrow> string" where
  "strftime fmt_Y dt [] = []"
| "strftime fmt_Y dt [c] = [c]"
| "strftime fmt_Y dt (c # d # cs) =
     (if c = CHR ''%'' \<and> d = CHR ''Y'' then fmt_Y (year dt) @ strftime fmt_Y dt cs
      else if c = CHR ''%'' \<and> d = CHR ''m'' then two_digits (month dt) @ strftime fmt_Y dt cs
      else if c = CHR ''%'' \<and> d = CHR ''d'' then two_digits (day dt) @ strftime fmt_Y dt cs
      else if c = CHR ''%'' \<and> d = CHR ''%'' then CHR ''%'' # strftime fmt_Y dt cs
      else c # strftime fmt_Y dt (d # cs))"

section \<open>Post-validation\<close>

text \<open>
  The inner loop of \<^verbatim>\<open>post_process_and_validate\<close>: the formats are tried in order; the
  first that parses gives the new value of the field and ends the loop
  (\<^verbatim>\<open>break\<close>); a format that raises \<^verbatim>\<open>ValueError\<close> is passed over. \<^verbatim>\<open>None\<close> when
  the loop ends without an assignment.
\<close>

fun try_formats :: "(nat \<Rightarrow> string) \<Rightarrow> string \<Rightarrow> string list \<Rightarrow> string option" where
  "try_formats fmt_Y v [] = None"
| "try_formats fmt_Y v (fmt # fmts) =
     (case strptime v fmt of
        Some dt \<Rightarrow> Some (strftime fmt_Y dt ''%Y-MM-DD'')
      | None \<Rightarrow> try_formats fmt_Y v fmts)"

definition date_formats :: "string list" where
  "date_formats = [''%Y-%m-%d'', ''%d %b %Y'', ''%B %d, %Y'', ''%d/%m/%Y'', ''%m/%d/%Y'']"

text \<open>The body of the outer loop for one item of the dictionary.\<close>

definition validate_item :: "(nat \<Rightarrow> string) \<Rightarrow> string \<Rightarrow> json \<Rightarrow> json" where
  "validate_item fmt_Y key v =
     (case v of
        JStr s \<Rightarrow>
          if str_contains ''date'' (lower key) then
            (case try_formats fmt_Y s date_formats of Some s' \<Rightarrow> JStr s' | None \<Rightarrow> v)
          else v
      | _ \<Rightarrow> v)"

text \<open>
  The dictionary is updated in place, one existing key at a time, while its items are
  visited: each item is replaced by its validated value.
\<close>

definition post_process_and_validate :: "(nat \<Rightarrow> string) \<Rightarrow> json \<Rightarrow> json" where
  "post_process_and_validate fmt_Y data =
     (case data of
        JObj items \<Rightarrow> JObj (map (\<lambda>(key, v). (key, validate_item fmt_Y key v)) items)
      | _ \<Rightarrow> data)"

section \<open>The collaborators of the pipeline\<close>

text \<open>
  One recognised line. The engine returns \<^verbatim>\<open>[polygon, (text, confidence)]\<close>; the source
  reads \<^verbatim>\<open>line[1][0]\<close> and \<^verbatim>\<open>line[1][1]\<close> only. A confidence is a floating-point
  number; it is the real number it denotes, which is what a comparison of two
  floating-point numbers compares.
\<close>

record ocr_line =
  line_text :: string
  line_confidence :: real

text \<open>
  What \<^verbatim>\<open>paddle_ocr.ocr\<close> does on one image: it raises, or it returns a list with one
  entry per picture, an entry being \<^verbatim>\<open>None\<close> or a list of lines. A result that is
  \<^verbatim>\<open>None\<close> is the empty list here, both being false in a condition.
\<close>

datatype ocr_outcome = Ocr_raises | Ocr_result "ocr_line list option list"

record response =
  status_code :: nat
  reason :: string
  body :: string

text \<open>\<^verbatim>\<open>requests.post\<close> raises (with the text of the exception) or returns a response.\<close>

datatype post_outcome = Post_raises string | Post_returns response

text \<open>A rectangle \<^verbatim>\<open>(x, y, w, h)\<close> of the face classifier.\<close>

record box =
  box_x :: int
  box_y :: int
  box_w :: int
  box_h :: int

text \<open>
  The libraries and services the pipeline calls, as functions of what they are given;
  \<open>'img\<close> is a decoded picture.
  \<^item> \<open>pil_reencode\<close>: opening the bytes with the imaging library, converting to RGB and
    saving as JPEG of quality 95; \<^verbatim>\<open>None\<close> when any of this raises.
  \<^item> \<open>fitz_open\<close>: the PDF library; \<^verbatim>\<open>None\<close> when the document cannot be opened,
    otherwise for each page, in page order, its rendering at 300 dpi as JPEG bytes, or
    \<^verbatim>\<open>None\<close> when loading or rendering that page raises.
  \<^item> \<open>cv_enhance\<close>: the body of the \<^verbatim>\<open>try\<close> block of \<^verbatim>\<open>preprocess_image_for_ocr\<close>
    (decoding, grey scale, contrast, deskewing, PNG encoding); \<^verbatim>\<open>None\<close> when it raises.
  \<^item> \<open>master_prompt\<close>: the prompt text built around the raw text.
  \<^item> \<open>json_loads\<close>: the JSON decoder, with the text of the error when it raises.
  \<^item> \<open>strftime_Y\<close>: how the C library prints a year for \<^verbatim>\<open>%Y\<close>.
  \<^item> \<open>imdecode\<close>: decoding to a colour picture; \<^verbatim>\<open>None\<close> when the decoder returns
    \<^verbatim>\<open>None\<close> or raises.
  \<^item> \<open>detect_multi_scale\<close>: the cascade classifier on the grey picture; \<^verbatim>\<open>None\<close>
    when it raises.
  \<^item> \<open>crop_encode\<close>: cutting the rectangle out of the picture and encoding it as JPEG.
    A rectangle that the classifier reports lies inside the picture and is at least 30
    by 30, and the encoder does not fail on such a crop.
\<close>

record 'img env =
  pil_reencode :: "bytes \<Rightarrow> bytes option"
  fitz_open :: "bytes \<Rightarrow> bytes option list option"
  cv_enhance :: "bytes \<Rightarrow> bytes option"
  paddle_ocr :: "bytes \<Rightarrow> ocr_outcome"
  master_prompt :: "string \<Rightarrow> string"
  requests_post :: "string \<Rightarrow> string list \<Rightarrow> post_outcome"
  json_loads :: "string \<Rightarrow> string + json"
  b64encode :: "bytes \<Rightarrow> string"
  strftime_Y :: "nat \<Rightarrow> string"
  imdecode :: "bytes \<Rightarrow> 'img option"
  detect_multi_scale :: "'img \<Rightarrow> box list option"
  crop_encode :: "'img \<Rightarrow> box \<Rightarrow> bytes"

text \<open>
  The row that \<^verbatim>\<open>save_processed_document\<close> inserts; the time stamp, which the
  database sets, is left out. The extracted data is the value that \<^verbatim>\<open>json.dumps\<close>
  writes out.
\<close>

record processed_document =
  doc_id :: nat
  doc_type :: string
  extracted_data :: json
  original_images :: "bytes list"
  face_image :: "bytes option"

text \<open>What a run does that can be seen from outside, in the order it happens.\<close>

datatype event =
    Progress string
  | Ocr_call bytes
  | Generate_call string "string list"
  | Detect_call bytes

record world =
  events :: "event list"
  documents :: "processed_document list"
  next_id :: nat
  db_reachable :: bool

datatype exn =
    Exception json
  | TypeError string
  | KeyError string
  | OperationalError

definition log_event :: "event \<Rightarrow> world \<Rightarrow> world" where
  "log_event e w = w\<lparr>events := events w @ [e]\<rparr>"

text \<open>\<^verbatim>\<open>self.update_state(state='PROGRESS', meta={'status': status})\<close>\<close>

definition update_state :: "string \<Rightarrow> world \<Rightarrow> world" where
  "update_state status w = log_event (Progress status) w"

text \<open>
  \<^verbatim>\<open>save_processed_document\<close>: one \<^verbatim>\<open>INSERT ... RETURNING id\<close>, which raises when
  the database cannot be reached.
\<close>

definition save_processed_document ::
    "string \<Rightarrow> json \<Rightarrow> bytes list \<Rightarrow> bytes option \<Rightarrow> world \<Rightarrow> (exn + nat) \<times> world" where
  "save_processed_document dtype data originals face w =
     (if db_reachable w then
        (Inr (next_id w),
         w\<lparr>documents := documents w @
              [\<lparr>doc_id = next_id w, doc_type = dtype, extracted_data = data,
                original_images = originals, face_image = face\<rparr>],
           next_id := Suc (next_id w)\<rparr>)
      else (Inl OperationalError, w))"

section \<open>Decoding the submitted files\<close>

definition normalize_image :: "'img env \<Rightarrow> bytes \<Rightarrow> bytes" where
  "normalize_image env image_bytes =
     (case pil_reencode env image_bytes of Some jpeg \<Rightarrow> jpeg | None \<Rightarrow> image_bytes)"

definition preprocess_image_for_ocr :: "'img env \<Rightarrow> bytes \<Rightarrow> bytes" where
  "preprocess_image_for_ocr env image_bytes =
     (case cv_enhance env image_bytes of Some png \<Rightarrow> png | None \<Rightarrow> image_bytes)"

text \<open>
  The loop over the pages of a document. It is inside the \<^verbatim>\<open>try\<close> block: a page that
  raises ends the loop, and the pictures appended before it stay in the list.
\<close>

fun render_pages :: "'img env \<Rightarrow> bytes option list \<Rightarrow> bytes list" where
  "render_pages env [] = []"
| "render_pages env (None # pages) = []"
| "render_pages env (Some img_bytes # pages) =
     normalize_image env img_bytes # render_pages env pages"

definition process_file_input :: "'img env \<Rightarrow> bytes \<Rightarrow> string \<Rightarrow> bytes list" where
  "process_file_input env file_bytes filename =
     (if endswith (lower filename) ''.pdf'' then
        (case fitz_open env file_bytes of
           None \<Rightarrow> []
         | Some pages \<Rightarrow> render_pages env pages)
      else [normalize_image env file_bytes])"

text \<open>
  The first loop of the task, over the sorted keys of the submission: the pair of lists
  is \<^verbatim>\<open>(all_image_bytes, original_images_to_save)\<close>. The submission is the list of the
  items of the dictionary, \<^verbatim>\<open>key: (filename, file_bytes)\<close>; a dictionary holds each key
  once, so the keys of the list are distinct.
\<close>

type_synonym submission = "(string \<times> string \<times> bytes) list"

fun read_files ::
    "'img env \<Rightarrow> submission \<Rightarrow> string list \<Rightarrow> bytes list \<times> bytes list \<Rightarrow>
     exn + bytes list \<times> bytes list" where
  "read_files env file_contents_dict [] acc = Inr acc"
| "read_files env file_contents_dict (key # keys) (all_image_bytes, originals) =
     (case map_of file_contents_dict key of
        None \<Rightarrow> Inl (KeyError key)
      | Some (filename, file_bytes) \<Rightarrow>
          read_files env file_contents_dict keys
            (all_image_bytes @ process_file_input env file_bytes filename,
             originals @ [file_bytes]))"

section \<open>Text extraction\<close>

text \<open>
  The literal \<^verbatim>\<open>0.80\<close> denotes the double-precision number nearest to four fifths,
  which lies just above it.
\<close>

definition OCR_CONFIDENCE_THRESHOLD :: real where
  "OCR_CONFIDENCE_THRESHOLD = 3602879701896397 / 4503599627370496"

text \<open>The marker written before the text of the picture at index \<open>i\<close>, counted from zero.\<close>

definition separator :: "nat \<Rightarrow> string" where
  "separator i =
     [CHR 0x0A] @ ''--- TEXT FROM PAGE/IMAGE '' @ str_nat (i + 1) @ '' ---'' @ [CHR 0x0A]"

definition high_confidence_texts :: "ocr_line list \<Rightarrow> string list" where
  "high_confidence_texts lines =
     map line_text (filter (\<lambda>line. line_confidence line > OCR_CONFIDENCE_THRESHOLD) lines)"

text \<open>
  What the \<^verbatim>\<open>try\<close> block adds to the text for one picture: nothing when the engine
  raises, nothing unless \<^verbatim>\<open>result and result[0]\<close>, else the surviving lines joined by
  line feeds.
\<close>

definition page_text :: "'img env \<Rightarrow> bytes \<Rightarrow> string" where
  "page_text env img_bytes =
     (case paddle_ocr env (preprocess_image_for_ocr env img_bytes) of
        Ocr_raises \<Rightarrow> []
      | Ocr_result result \<Rightarrow>
          (case result of
             [] \<Rightarrow> []
           | None # _ \<Rightarrow> []
           | Some lines # _ \<Rightarrow>
               if lines = [] then [] else join [CHR 0x0A] (high_confidence_texts lines)))"

fun extract_loop :: "'img env \<Rightarrow> nat \<Rightarrow> bytes list \<Rightarrow> string \<times> world \<Rightarrow> string \<times> world" where
  "extract_loop env i [] st = st"
| "extract_loop env i (img_bytes # rest) (full_text, w) =
     extract_loop env (Suc i) rest
       (full_text @ separator i @ page_text env img_bytes,
        log_event (Ocr_call (preprocess_image_for_ocr env img_bytes)) w)"

definition extract_text_with_paddleocr :: "'img env \<Rightarrow> bytes list \<Rightarrow> world \<Rightarrow> string \<times> world" where
  "extract_text_with_paddleocr env ordered_image_bytes w =
     extract_loop env 0 ordered_image_bytes ([], w)"

section \<open>Structuring\<close>

definition OLLAMA_API_URL :: string where
  "OLLAMA_API_URL = ''http://ollama:11434/api/generate''"

text \<open>
  \<^verbatim>\<open>response.raise_for_status()\<close>: the text of the \<^verbatim>\<open>HTTPError\<close> it raises, for a
  status from 400 to 599, and \<^verbatim>\<open>None\<close> when it returns.
\<close>

definition raise_for_status :: "response \<Rightarrow> string option" where
  "raise_for_status r =
     (if 400 \<le> status_code r \<and> status_code r < 500 then
        Some (str_nat (status_code r) @ '' Client Error: '' @ reason r @ '' for url: '' @ OLLAMA_API_URL)
      else if 500 \<le> status_code r \<and> status_code r < 600 then
        Some (str_nat (status_code r) @ '' Server Error: '' @ reason r @ '' for url: '' @ OLLAMA_API_URL)
      else None)"

text \<open>The name of the Python class of a decoded value.\<close>

fun class_name :: "json \<Rightarrow> string" where
  "class_name JNull = ''NoneType''"
| "class_name (JBool b) = ''bool''"
| "class_name (JInt i) = ''int''"
| "class_name (JFloat x) = ''float''"
| "class_name (JStr s) = ''str''"
| "class_name (JArr xs) = ''list''"
| "class_name (JObj items) = ''dict''"

text \<open>The record that the \<^verbatim>\<open>except\<close> clause returns for an exception of text \<open>e\<close>.\<close>

definition error_record :: "string \<Rightarrow> json" where
  "error_record e =
     JObj [(''error'', JStr (''The language model failed to structure the text. Error: '' @ e))]"

text \<open>\<^verbatim>\<open>json.loads(s)\<close> inside the \<^verbatim>\<open>try\<close> block.\<close>

definition loads_or_error :: "'img env \<Rightarrow> string \<Rightarrow> json" where
  "loads_or_error env s =
     (case json_loads env s of Inl e \<Rightarrow> error_record e | Inr decoded \<Rightarrow> decoded)"

text \<open>
  \<^verbatim>\<open>json.loads(response.json().get('response', '{}'))\<close>: a reply that is not an object
  has no \<^verbatim>\<open>get\<close>, and \<^verbatim>\<open>json.loads\<close> takes text only.
\<close>

definition decode_reply :: "'img env \<Rightarrow> json \<Rightarrow> json" where
  "decode_reply env reply =
     (case reply of
        JObj items \<Rightarrow>
          (case map_of items ''response'' of
             None \<Rightarrow> loads_or_error env ''{}''
           | Some (JStr s) \<Rightarrow> loads_or_error env s
           | Some v \<Rightarrow>
               error_record (''the JSON object must be str, bytes or bytearray, not '' @ class_name v))
      | _ \<Rightarrow> error_record ([CHR 0x27] @ class_name reply @ [CHR 0x27] @ '' object has no attribute '' @ [CHR 0x27] @ ''get'' @ [CHR 0x27]))"

definition structure_data_with_master_prompt ::
    "'img env \<Rightarrow> string \<Rightarrow> string list \<Rightarrow> world \<Rightarrow> json \<times> world" where
  "structure_data_with_master_prompt env raw_text base64_images w =
     (let prompt = master_prompt env raw_text;
          w' = log_event (Generate_call prompt base64_images) w
      in (case requests_post env prompt base64_images of
            Post_raises e \<Rightarrow> error_record e
          | Post_returns r \<Rightarrow>
              (case raise_for_status r of
                 Some e \<Rightarrow> error_record e
               | None \<Rightarrow>
                   (case json_loads env (body r) of
                      Inl e \<Rightarrow> error_record e
                    | Inr reply \<Rightarrow> decode_reply env reply)),
          w'))"

section \<open>Face location\<close>

text \<open>
  The sort key \<^verbatim>\<open>f[2]*f[3]\<close>. The numbers are 32-bit in the source; the product of the
  sides of a rectangle inside a decoded picture stays far below \<open>2^31\<close>, the decoder
  refusing pictures of more than \<open>2^30\<close> pixels, so the product is the integer product.
\<close>

definition area :: "box \<Rightarrow> int" where
  "area f = box_w f * box_h f"

text \<open>
  The loop over the pictures. The classifier is called on each picture that decodes; a
  picture that does not decode, on which the classifier raises or finds nothing, is
  passed over. \<^verbatim>\<open>sorted(...)[0]\<close> on an empty list would raise inside the \<^verbatim>\<open>try\<close>
  block, which passes the picture over as well.
\<close>

fun detect_and_crop_face :: "'img env \<Rightarrow> bytes list \<Rightarrow> world \<Rightarrow> bytes option \<times> world" where
  "detect_and_crop_face env [] w = (None, w)"
| "detect_and_crop_face env (img_bytes # rest) w =
     (case imdecode env img_bytes of
        None \<Rightarrow> detect_and_crop_face env rest w
      | Some img \<Rightarrow>
          (let w' = log_event (Detect_call img_bytes) w
           in case detect_multi_scale env img of
                None \<Rightarrow> detect_and_crop_face env rest w'
              | Some faces \<Rightarrow>
                  if length faces > 0 then
                    (case sorted_reverse area faces of
                       [] \<Rightarrow> detect_and_crop_face env rest w'
                     | f # _ \<Rightarrow> (Some (crop_encode env img f), w'))
                  else detect_and_crop_face env rest w'))"

section \<open>The task\<close>

text \<open>
  \<^verbatim>\<open>"error" in structured_data\<close>: a key of a dictionary, an element of a list, a part of
  a string; any other value is not iterable.
\<close>

fun error_in :: "json \<Rightarrow> exn + bool" where
  "error_in (JObj items) = Inr (''error'' \<in> fst ` set items)"
| "error_in (JArr xs) = Inr (JStr ''error'' \<in> set xs)"
| "error_in (JStr s) = Inr (str_contains ''error'' s)"
| "error_in v =
     Inl (TypeError (''argument of type '' @ [CHR 0x27] @ class_name v @ [CHR 0x27] @ '' is not iterable''))"

text \<open>\<^verbatim>\<open>raise Exception(structured_data["error"])\<close>: what is raised.\<close>

fun raise_error_of :: "json \<Rightarrow> exn" where
  "raise_error_of (JObj items) =
     (case map_of items ''error'' of Some v \<Rightarrow> Exception v | None \<Rightarrow> KeyError ''error'')"
| "raise_error_of (JArr xs) = TypeError ''list indices must be integers or slices, not str''"
| "raise_error_of v = TypeError ''string indices must be integers''"

text \<open>
  The task returns the identity of the new row (\<^verbatim>\<open>'result'\<close> of the dictionary it
  returns, state SUCCESS) or raises, which is the state FAILURE with the exception.
\<close>

definition process_documents_task ::
    "'img env \<Rightarrow> submission \<Rightarrow> string \<Rightarrow> world \<Rightarrow> (exn + nat) \<times> world" where
  "process_documents_task env file_contents_dict dtype w =
     (case read_files env file_contents_dict (sort (map fst file_contents_dict)) ([], []) of
        Inl e \<Rightarrow> (Inl e, w)
      | Inr (all_image_bytes, original_images_to_save) \<Rightarrow>
          if all_image_bytes = [] then
            (Inl (Exception (JStr ''No valid images could be processed from the provided file(s).'')), w)
          else
            (let w1 = update_state ''Cleaning images & performing high-accuracy OCR...'' w;
                 (raw_text, w2) = extract_text_with_paddleocr env all_image_bytes w1;
                 w3 = update_state ''AI is analyzing and structuring the document...'' w2;
                 base64_images = map (b64encode env) all_image_bytes;
                 (structured_data, w4) =
                   structure_data_with_master_prompt env raw_text base64_images w3
             in case error_in structured_data of
                  Inl e \<Rightarrow> (Inl e, w4)
                | Inr True \<Rightarrow> (Inl (raise_error_of structured_data), w4)
                | Inr False \<Rightarrow>
                    (let w5 = update_state ''Validating and formatting final data...'' w4;
                         final_data = post_process_and_validate (strftime_Y env) structured_data;
                         w6 = update_state ''Detecting faces...'' w5;
                         (face_image_bytes, w7) = detect_and_crop_face env all_image_bytes w6;
                         w8 = update_state ''Saving to database...'' w7
                     in save_processed_document dtype final_data original_images_to_save
                          face_image_bytes w8)))"

section \<open>Notions used in the statements\<close>

definition ends_in_digit :: "string \<Rightarrow> bool" where
  "ends_in_digit s \<longleftrightarrow> s \<noteq> [] \<and> is_digit (last s)"

text \<open>The file stored under a key of the submission.\<close>

definition lookup_file :: "submission \<Rightarrow> string \<Rightarrow> string \<times> bytes" where
  "lookup_file d key = (case map_of d key of Some f \<Rightarrow> f | None \<Rightarrow> ([], []))"

text \<open>The pictures that one item of the submission decodes to, and its bytes as submitted.\<close>

definition decode_file :: "'img env \<Rightarrow> string \<times> string \<times> bytes \<Rightarrow> bytes list" where
  "decode_file env item =
     (case item of (key, filename, file_bytes) \<Rightarrow> process_file_input env file_bytes filename)"

definition raw_bytes :: "string \<times> string \<times> bytes \<Rightarrow> bytes" where
  "raw_bytes item = (case item of (key, filename, file_bytes) \<Rightarrow> file_bytes)"

text \<open>A line of confidence 0.80 or less.\<close>

definition low_confidence :: "ocr_line \<Rightarrow> bool" where
  "low_confidence line \<longleftrightarrow> line_confidence line \<le> 0.80"

text \<open>A recognition result from which every line of low confidence has been taken out.\<close>

definition discard_low_confidence :: "ocr_outcome \<Rightarrow> ocr_outcome" where
  "discard_low_confidence outcome =
     (case outcome of
        Ocr_raises \<Rightarrow> Ocr_raises
      | Ocr_result result \<Rightarrow>
          Ocr_result (map (map_option (filter (\<lambda>line. \<not> low_confidence line))) result))"

text \<open>
  The regions that the classifier reports on a picture: none when the picture does not
  decode or the classifier raises.
\<close>

definition candidates :: "'img env \<Rightarrow> bytes \<Rightarrow> box list" where
  "candidates env img_bytes =
     (case imdecode env img_bytes of
        None \<Rightarrow> []
      | Some img \<Rightarrow> (case detect_multi_scale env img of None \<Rightarrow> [] | Some faces \<Rightarrow> faces))"

section \<open>A sample environment\<close>

text \<open>
  Concrete collaborators on which the theorems are instantiated. Pictures are decoded to
  their own bytes. The document \<open>''two-pages''\<close> has two pages, \<open>''torn''\<close> loses its
  second page, any other document does not open.
\<close>

definition sample_env :: "bytes env" where
  "sample_env = \<lparr>
     pil_reencode = (\<lambda>b. if b = ''junk'' then None else Some (''J'' @ b)),
     fitz_open = (\<lambda>b. if b = ''two-pages'' then Some [Some ''p1'', Some ''p2'']
                       else if b = ''torn'' then Some [Some ''p1'', None, Some ''p3'']
                       else None),
     cv_enhance = (\<lambda>b. None),
     paddle_ocr = (\<lambda>b.
       if b = ''Jp1'' then
         Ocr_result [Some [\<lparr>line_text = ''NAME'', line_confidence = 0.93\<rparr>,
                           \<lparr>line_text = ''smudge'', line_confidence = 0.80\<rparr>,
                           \<lparr>line_text = ''15/03/1990'', line_confidence = 0.81\<rparr>]]
       else if b = ''Jp2'' then Ocr_raises
       else Ocr_result [None]),
     master_prompt = (\<lambda>t. ''PROMPT '' @ t),
     requests_post = (\<lambda>p imgs. Post_returns \<lparr>status_code = 200, reason = ''OK'', body = ''B''\<rparr>),
     json_loads = (\<lambda>s.
       if s = ''B'' then Inr (JObj [(''response'', JStr ''R'')])
       else if s = ''R'' then Inr (JObj [(''date_of_birth'', JStr ''15/03/1990'')])
       else if s = ''{}'' then Inr (JObj [])
       else Inl ''Expecting value''),
     b64encode = (\<lambda>b. ''b64:'' @ b),
     strftime_Y = str_nat,
     imdecode = (\<lambda>b. if b = ''Jp1'' then None else Some b),
     detect_multi_scale = (\<lambda>img.
       if img = ''Jp2'' then
         Some [\<lparr>box_x = 0, box_y = 0, box_w = 30, box_h = 40\<rparr>,
               \<lparr>box_x = 5, box_y = 5, box_w = 50, box_h = 40\<rparr>,
               \<lparr>box_x = 9, box_y = 5, box_w = 40, box_h = 50\<rparr>]
       else Some []),
     crop_encode = (\<lambda>img f. ''crop'' @ str_nat (nat (box_x f)) @ img)\<rparr>"

definition sample_world :: world where
  "sample_world = \<lparr>events = [], documents = [], next_id = 1, db_reachable = True\<rparr>"

text \<open>
  Three variations: the endpoint answers with status 300 and a well-formed body; it answers
  with status 503; its reply is an object without the key \<^verbatim>\<open>response\<close>.
\<close>

definition redirect_env :: "bytes env" where
  "redirect_env = sample_env\<lparr>requests_post :=
     (\<lambda>p imgs. Post_returns \<lparr>status_code = 300, reason = ''Multiple Choices'', body = ''B''\<rparr>)\<rparr>"

definition failing_env :: "bytes env" where
  "failing_env = sample_env\<lparr>requests_post :=
     (\<lambda>p imgs. Post_returns \<lparr>status_code = 503, reason = ''Service Unavailable'', body = []\<rparr>)\<rparr>"

definition terse_env :: "bytes env" where
  "terse_env = sample_env\<lparr>json_loads :=
     (\<lambda>s. if s = ''B'' then Inr (JObj [(''done'', JBool True)])
           else if s = ''{}'' then Inr (JObj [])
           else Inl ''Expecting value'')\<rparr>"

section \<open>Date parsing on examples\<close>

text \<open>
  The five formats on a few strings: the day goes first when both readings of a date
  with strokes are possible, the names of the months are matched in any case, a date
  that the calendar does not have is refused, and so is the text that post-validation
  writes.
\<close>

lemmas strptime_eval = date_formats_def strptime_def directive_of_def add_char_def is_space_def
  is_digit_def digit_val_def match_month_name_def sorted_reverse_def a_month_def f_month_def
  lower_def lower_char_def valid_date_def days_in_month_def is_leap_def

lemma strptime_examples:
  "map (strptime ''15/03/1990'') date_formats =
     [None, None, None, Some \<lparr>year = 1990, month = 3, day = 15\<rparr>, None]"
  "map (strptime ''01/02/2000'') date_formats =
     [None, None, None, Some \<lparr>year = 2000, month = 2, day = 1\<rparr>,
      Some \<lparr>year = 2000, month = 1, day = 2\<rparr>]"
  "map (strptime '' 5 jAn  2001'') date_formats =
     [None, Some \<lparr>year = 2001, month = 1, day = 5\<rparr>, None, None, None]"
  "map (strptime ''March 5, 2001'') date_formats =
     [None, None, Some \<lparr>year = 2001, month = 3, day = 5\<rparr>, None, None]"
  "map (strptime ''2004-2-29'') date_formats =
     [Some \<lparr>year = 2004, month = 2, day = 29\<rparr>, None, None, None, None]"
  "map (strptime ''2001-02-29'') date_formats = [None, None, None, None, None]"
  "map (strptime ''1990-MM-DD'') date_formats = [None, None, None, None, None]"
  by (simp_all add: strptime_eval)

section \<open>Date parsing: a parsed string ends in a digit\<close>

lemma match_Y_consumes: "match_Y s = Some (v, rest) \<Longrightarrow> \<exists>pre. s = pre @ rest \<and> pre \<noteq> [] \<and> is_digit (last pre)"
  by (cases s rule: match_Y.cases) (auto split: if_splits)

lemma match_m_consumes: "match_m s = Some (v, rest) \<Longrightarrow> \<exists>pre. s = pre @ rest \<and> pre \<noteq> [] \<and> is_digit (last pre)"
  by (cases s rule: match_m.cases) (auto split: if_splits simp: is_digit_def)

lemma match_d_consumes: "match_d s = Some (v, rest) \<Longrightarrow> \<exists>pre. s = pre @ rest \<and> pre \<noteq> [] \<and> is_digit (last pre)"
  by (cases s rule: match_d.cases) (auto split: if_splits simp: is_digit_def)

lemma match_names_consumes: "match_names ns s = Some (n, rest) \<Longrightarrow> \<exists>pre. s = pre @ rest"
proof (induction ns)
  case Nil
  then show ?case by simp
next
  case (Cons a ns)
  show ?case
  proof (cases "lower (take (length a) s) = a")
    case True
    with Cons.prems have "rest = drop (length a) s" by auto
    then have "s = take (length a) s @ rest" by simp
    then show ?thesis ..
  next
    case False
    with Cons show ?thesis by simp
  qed
qed

lemma match_directive_consumes:
  "match_directive d s dt = Some (dt', rest) \<Longrightarrow> \<exists>pre. s = pre @ rest"
proof (cases d)
  case Whitespace
  assume a: "match_directive d s dt = Some (dt', rest)"
  with Whitespace obtain c cs where s: "s = c # cs" and r: "rest = dropWhile is_space cs"
    by (auto split: list.splits if_splits)
  have "s = (c # takeWhile is_space cs) @ rest" using s r by simp
  then show ?thesis ..
next
  case (Literal l)
  assume "match_directive d s dt = Some (dt', rest)"
  with Literal have "s = [hd s] @ rest" by (auto split: list.splits if_splits)
  then show ?thesis ..
qed (auto simp: match_month_name_def split: option.splits
       dest: match_Y_consumes match_m_consumes match_d_consumes match_names_consumes)

lemma run_directives_consumes:
  "run_directives ds s dt = Some (dt', rest) \<Longrightarrow> \<exists>pre. s = pre @ rest"
proof (induction ds arbitrary: s dt)
  case Nil
  then show ?case by simp
next
  case (Cons d ds)
  from Cons.prems obtain dt1 s1 where m: "match_directive d s dt = Some (dt1, s1)"
    and r: "run_directives ds s1 dt1 = Some (dt', rest)"
    by (auto split: option.splits)
  from match_directive_consumes [OF m] obtain p1 where "s = p1 @ s1" ..
  moreover from Cons.IH [OF r] obtain p2 where "s1 = p2 @ rest" ..
  ultimately have "s = (p1 @ p2) @ rest" by simp
  then show ?case ..
qed

lemma run_directives_append:
  "run_directives (ds @ es) s dt =
     (case run_directives ds s dt of None \<Rightarrow> None | Some (dt', rest) \<Rightarrow> run_directives es rest dt')"
  by (induction ds arbitrary: s dt) (auto split: option.splits)

lemma match_Y_last: "match_Y s = Some (v, []) \<Longrightarrow> ends_in_digit s"
  using match_Y_consumes [of s v "[]"] by (auto simp: ends_in_digit_def)

lemma match_d_last: "match_d s = Some (v, []) \<Longrightarrow> ends_in_digit s"
  using match_d_consumes [of s v "[]"] by (auto simp: ends_in_digit_def)

lemma run_directives_last:
  assumes "run_directives (ds @ [d]) s dt = Some (dt', [])" and "d = Dir_Y \<or> d = Dir_d"
  shows "ends_in_digit s"
proof -
  from assms(1) obtain dt1 s1 where r: "run_directives ds s dt = Some (dt1, s1)"
    and m: "match_directive d s1 dt1 = Some (dt', [])"
    by (auto simp: run_directives_append split: option.splits)
  from run_directives_consumes [OF r] obtain p where s: "s = p @ s1" ..
  from m assms(2) have "ends_in_digit s1"
    by (auto dest: match_Y_last match_d_last)
  with s show ?thesis by (simp add: ends_in_digit_def)
qed

lemma compile_date_formats:
  "compile_format ''%Y-%m-%d'' = Some ([Dir_Y, Literal CHR ''-'', Dir_m, Literal CHR ''-''] @ [Dir_d])"
  "compile_format ''%d %b %Y'' = Some ([Dir_d, Whitespace, Dir_b, Whitespace] @ [Dir_Y])"
  "compile_format ''%B %d, %Y'' = Some ([Dir_B, Whitespace, Dir_d, Literal CHR '','', Whitespace] @ [Dir_Y])"
  "compile_format ''%d/%m/%Y'' = Some ([Dir_d, Literal CHR ''/'', Dir_m, Literal CHR ''/''] @ [Dir_Y])"
  "compile_format ''%m/%d/%Y'' = Some ([Dir_m, Literal CHR ''/'', Dir_d, Literal CHR ''/''] @ [Dir_Y])"
  by (simp_all add: directive_of_def add_char_def is_space_def)

lemma strptime_last:
  assumes "compile_format fmt = Some (ds @ [d])" and "d = Dir_Y \<or> d = Dir_d"
    and "strptime s fmt = Some dt"
  shows "ends_in_digit s"
proof -
  from assms(1,3) have "run_directives (ds @ [d]) s \<lparr>year = 1900, month = 1, day = 1\<rparr> = Some (dt, [])"
    by (auto simp: strptime_def split: option.splits if_splits)
  then show ?thesis using assms(2) by (rule run_directives_last)
qed

lemma strptime_ends_in_digit:
  assumes "strptime s fmt = Some dt" and "fmt \<in> set date_formats"
  shows "ends_in_digit s"
proof -
  from assms(2) consider "fmt = ''%Y-%m-%d''" | "fmt = ''%d %b %Y''" | "fmt = ''%B %d, %Y''"
    | "fmt = ''%d/%m/%Y''" | "fmt = ''%m/%d/%Y''"
    by (auto simp: date_formats_def)
  then show ?thesis
  proof cases
    case 1
    with assms(1) show ?thesis by (auto intro: strptime_last [OF compile_date_formats(1)])
  next
    case 2
    with assms(1) show ?thesis by (auto intro: strptime_last [OF compile_date_formats(2)])
  next
    case 3
    with assms(1) show ?thesis by (auto intro: strptime_last [OF compile_date_formats(3)])
  next
    case 4
    with assms(1) show ?thesis by (auto intro: strptime_last [OF compile_date_formats(4)])
  next
    case 5
    with assms(1) show ?thesis by (auto intro: strptime_last [OF compile_date_formats(5)])
  qed
qed

lemma strptime_None:
  "\<not> ends_in_digit s \<Longrightarrow> fmt \<in> set date_formats \<Longrightarrow> strptime s fmt = None"
  by (cases "strptime s fmt") (auto dest: strptime_ends_in_digit)

lemma strftime_target: "strftime fmt_Y dt ''%Y-MM-DD'' = fmt_Y (year dt) @ ''-MM-DD''"
  by simp

lemma try_formats_None:
  "\<not> ends_in_digit s \<Longrightarrow> set fmts \<subseteq> set date_formats \<Longrightarrow> try_formats fmt_Y s fmts = None"
  by (induction fmts) (auto simp: strptime_None)

lemma try_formats_Some:
  "try_formats fmt_Y s fmts = Some s' \<Longrightarrow> \<exists>y. s' = y @ ''-MM-DD''"
  by (induction fmts) (auto split: option.splits)

lemma try_formats_twice:
  assumes "try_formats fmt_Y s date_formats = Some s'"
  shows "try_formats fmt_Y s' date_formats = None"
proof -
  from try_formats_Some [OF assms] obtain y where "s' = y @ ''-MM-DD''" ..
  then have "\<not> ends_in_digit s'" by (simp add: ends_in_digit_def is_digit_def)
  then show ?thesis by (rule try_formats_None) simp
qed

lemma validate_item_idem:
  "validate_item fmt_Y key (validate_item fmt_Y key v) = validate_item fmt_Y key v"
  by (cases v) (auto simp: validate_item_def try_formats_twice split: option.splits)

section \<open>Post-validation\<close>

text \<open>
  Claim C7. Post-validation is idempotent: for every input value, a dictionary or not,
  and however the C library prints the year, validating the validated value gives the
  validated value again.
\<close>

theorem post_process_and_validate_idempotent:
  "post_process_and_validate fmt_Y (post_process_and_validate fmt_Y data) =
   post_process_and_validate fmt_Y data"
  by (cases data) (auto simp: post_process_and_validate_def validate_item_idem)

theorem post_process_and_validate_idempotent_witness:
  "post_process_and_validate str_nat
     (post_process_and_validate str_nat
        (JObj [(''Date_of_Birth'', JStr ''15/03/1990''), (''expiry_date'', JStr ''soon'')])) =
   post_process_and_validate str_nat
     (JObj [(''Date_of_Birth'', JStr ''15/03/1990''), (''expiry_date'', JStr ''soon'')])"
  by (rule post_process_and_validate_idempotent)

text \<open>
  Claim C1. A date field that parses is overwritten, but not with the date in the form
  YYYY-MM-DD: the target of the source is \<^verbatim>\<open>"%Y-MM-DD"\<close>, in which only the year is a
  directive, so \<^verbatim>\<open>"15/03/1990"\<close> becomes the year followed by the letters
  \<^verbatim>\<open>-MM-DD\<close>, and never \<^verbatim>\<open>"1990-03-15"\<close>.
\<close>

theorem post_validation_writes_literal_month_and_day:
  "post_process_and_validate fmt_Y (JObj [(''date_of_birth'', JStr ''15/03/1990'')]) =
     JObj [(''date_of_birth'', JStr (fmt_Y 1990 @ ''-MM-DD''))] \<and>
   post_process_and_validate fmt_Y (JObj [(''date_of_birth'', JStr ''15/03/1990'')]) \<noteq>
     JObj [(''date_of_birth'', JStr ''1990-03-15'')]"
proof -
  have "try_formats fmt_Y ''15/03/1990'' date_formats = Some (fmt_Y 1990 @ ''-MM-DD'')"
    by (simp add: strptime_eval)
  then have "post_process_and_validate fmt_Y (JObj [(''date_of_birth'', JStr ''15/03/1990'')]) =
     JObj [(''date_of_birth'', JStr (fmt_Y 1990 @ ''-MM-DD''))]"
    by (simp add: post_process_and_validate_def validate_item_def lower_def lower_char_def
        startswith_def)
  moreover have "fmt_Y 1990 @ ''-MM-DD'' \<noteq> ''1990-03-15''"
  proof
    assume "fmt_Y 1990 @ ''-MM-DD'' = ''1990-03-15''"
    then have "last (fmt_Y 1990 @ ''-MM-DD'') = last ''1990-03-15''" by simp
    then show False by simp
  qed
  ultimately show ?thesis by simp
qed

theorem post_validation_writes_literal_month_and_day_witness:
  "post_process_and_validate str_nat (JObj [(''date_of_birth'', JStr ''15/03/1990'')]) =
     JObj [(''date_of_birth'', JStr ''1990-MM-DD'')]"
  using post_validation_writes_literal_month_and_day [of str_nat] by (simp add: str_nat.simps digit_char_def)

section \<open>Reading the submission\<close>

lemma read_files_keys:
  "set keys \<subseteq> fst ` set d \<Longrightarrow>
   read_files env d keys (imgs, origs) =
     Inr (imgs @ concat (map (\<lambda>k. decode_file env (k, lookup_file d k)) keys),
          origs @ map (\<lambda>k. raw_bytes (k, lookup_file d k)) keys)"
proof (induction keys arbitrary: imgs origs)
  case Nil
  then show ?case by simp
next
  case (Cons k keys)
  from Cons.prems have "k \<in> fst ` set d" by simp
  then obtain filename file_bytes where m: "map_of d k = Some (filename, file_bytes)"
    by (cases "map_of d k") (auto simp: map_of_eq_None_iff)
  from Cons.prems have "set keys \<subseteq> fst ` set d" by simp
  from Cons.IH [OF this] m show ?case
    by (simp add: lookup_file_def decode_file_def raw_bytes_def)
qed

lemma map_insort_key: "map f (insort_key f x xs) = insort (f x) (map f xs)"
  by (induction xs) simp_all

lemma map_sort_key: "map f (sort_key f xs) = sort (map f xs)"
  by (induction xs) (simp_all add: map_insort_key)

lemma lookup_file_distinct:
  "distinct (map fst d) \<Longrightarrow> item \<in> set d \<Longrightarrow> (fst item, lookup_file d (fst item)) = item"
  by (cases item) (simp add: lookup_file_def)

lemma rebuild_items:
  assumes "distinct (map fst d)" and "set xs \<subseteq> set d"
  shows "map (\<lambda>k. (k, lookup_file d k)) (map fst xs) = xs"
proof -
  have "map ((\<lambda>k. (k, lookup_file d k)) \<circ> fst) xs = map (\<lambda>item. item) xs"
  proof (rule map_cong [OF refl])
    fix item assume "item \<in> set xs"
    with assms(2) have "item \<in> set d" by blast
    with assms(1) show "((\<lambda>k. (k, lookup_file d k)) \<circ> fst) item = item"
      by (simp add: lookup_file_distinct)
  qed
  then show ?thesis by simp
qed

lemma read_files_sorted:
  assumes "distinct (map fst d)"
  shows "read_files env d (sort (map fst d)) ([], []) =
           Inr (concat (map (decode_file env) (sort_key fst d)), map raw_bytes (sort_key fst d))"
proof -
  have k: "sort (map fst d) = map fst (sort_key fst d)" by (simp add: map_sort_key)
  have items: "map (\<lambda>k. (k, lookup_file d k)) (sort (map fst d)) = sort_key fst d"
    unfolding k using assms by (rule rebuild_items) simp
  have "set (sort (map fst d)) \<subseteq> fst ` set d" by simp
  from read_files_keys [OF this, of env "[]" "[]"]
  have "read_files env d (sort (map fst d)) ([], []) =
     Inr (concat (map (decode_file env) (map (\<lambda>k. (k, lookup_file d k)) (sort (map fst d)))),
          map raw_bytes (map (\<lambda>k. (k, lookup_file d k)) (sort (map fst d))))"
    by (simp add: comp_def)
  then show ?thesis by (simp only: items)
qed

lemma read_files_total:
  "\<exists>imgs origs. read_files env d (sort (map fst d)) ([], []) = Inr (imgs, origs)"
proof -
  have "set (sort (map fst d)) \<subseteq> fst ` set d" by simp
  from read_files_keys [OF this, of env "[]" "[]"] show ?thesis by blast
qed

lemma read_files_empty:
  assumes "\<forall>item \<in> set d. decode_file env item = []"
  shows "\<exists>origs. read_files env d (sort (map fst d)) ([], []) = Inr ([], origs)"
proof -
  have s: "set (sort (map fst d)) \<subseteq> fst ` set d" by simp
  have "\<And>k. k \<in> fst ` set d \<Longrightarrow> decode_file env (k, lookup_file d k) = []"
  proof -
    fix k assume "k \<in> fst ` set d"
    then obtain f where m: "map_of d k = Some f"
      by (cases "map_of d k") (auto simp: map_of_eq_None_iff)
    then have "(k, f) \<in> set d" by (rule map_of_SomeD)
    with assms have "decode_file env (k, f) = []" by blast
    with m show "decode_file env (k, lookup_file d k) = []" by (simp add: lookup_file_def)
  qed
  then have "concat (map (\<lambda>k. decode_file env (k, lookup_file d k)) (sort (map fst d))) = []"
    by auto
  with read_files_keys [OF s, of env "[]" "[]"] show ?thesis by simp
qed

text \<open>
  Claim C5. When the files of a submission together decode to no picture at all, the
  run fails with the exception that says so, and the world is as it was: no call of the
  recognition engine or of the language model has been made, and no row has been stored.
\<close>

theorem no_images_fails_fast:
  assumes "\<forall>item \<in> set file_contents_dict. decode_file env item = []"
  shows "process_documents_task env file_contents_dict dtype w =
           (Inl (Exception (JStr ''No valid images could be processed from the provided file(s).'')), w)"
proof -
  from read_files_empty [OF assms] obtain origs
    where "read_files env file_contents_dict (sort (map fst file_contents_dict)) ([], []) = Inr ([], origs)" ..
  then show ?thesis by (simp add: process_documents_task_def)
qed

theorem no_images_fails_fast_witness:
  "decode_file sample_env (''file_0'', ''scan.pdf'', ''corrupt'') = [] \<and>
   process_documents_task sample_env [(''file_0'', ''scan.pdf'', ''corrupt'')] ''passport'' sample_world =
     (Inl (Exception (JStr ''No valid images could be processed from the provided file(s).'')),
      sample_world)"
proof -
  have h: "decode_file sample_env (''file_0'', ''scan.pdf'', ''corrupt'') = []"
    by (simp add: decode_file_def process_file_input_def sample_env_def endswith_def lower_def
        lower_char_def)
  then have "\<forall>item \<in> set [(''file_0'', ''scan.pdf'', ''corrupt'')]. decode_file sample_env item = []"
    by simp
  from h no_images_fails_fast [OF this] show ?thesis by blast
qed

lemma render_pages_eq:
  "\<exists>rendered. map Some rendered = takeWhile (\<lambda>p. p \<noteq> None) pages \<and>
     render_pages env pages = map (normalize_image env) rendered"
proof (induction pages)
  case Nil
  then show ?case by simp
next
  case (Cons p pages)
  show ?case
  proof (cases p)
    case None
    then show ?thesis by simp
  next
    case (Some b)
    from Cons.IH obtain rendered where r: "map Some rendered = takeWhile (\<lambda>p. p \<noteq> None) pages"
      "render_pages env pages = map (normalize_image env) rendered" by blast
    with Some have "map Some (b # rendered) = takeWhile (\<lambda>p. p \<noteq> None) (p # pages) \<and>
      render_pages env (p # pages) = map (normalize_image env) (b # rendered)" by simp
    then show ?thesis ..
  qed
qed

section \<open>Text extraction\<close>

lemma extract_loop_text:
  "fst (extract_loop env i imgs (t, w)) =
     t @ concat (map2 (@) (map separator [i..<i + length imgs]) (map (page_text env) imgs))"
proof (induction imgs arbitrary: i t w)
  case Nil
  then show ?case by simp
next
  case (Cons b imgs)
  have "i < i + length (b # imgs)" by simp
  then have "[i..<i + length (b # imgs)] = i # [Suc i..<i + length (b # imgs)]"
    by (rule upt_conv_Cons)
  then have "[i..<i + length (b # imgs)] = i # [Suc i..<Suc i + length imgs]" by simp
  with Cons.IH [of "Suc i"] show ?case by simp
qed

lemma page_text_raises:
  "paddle_ocr env (preprocess_image_for_ocr env b) = Ocr_raises \<Longrightarrow> page_text env b = []"
  by (simp add: page_text_def)

text \<open>
  Claim C2. For every list of pictures, the empty one included, the raw text is the
  blocks of the pictures one after the other, in the order of the list, and the block of
  the picture at index \<open>i\<close> is the marker numbered \<open>i + 1\<close> followed by what recognition
  gave for that picture: one marker is written per picture, numbered from 1 to the number
  of pictures. When recognition raises on every picture the raw text is the markers and
  nothing else.
\<close>

theorem one_marker_per_image:
  "fst (extract_text_with_paddleocr env imgs w) =
     concat (map2 (@) (map separator [0..<length imgs]) (map (page_text env) imgs)) \<and>
   ((\<forall>b \<in> set imgs. paddle_ocr env (preprocess_image_for_ocr env b) = Ocr_raises) \<longrightarrow>
      fst (extract_text_with_paddleocr env imgs w) = concat (map separator [0..<length imgs]))"
proof -
  have eq: "fst (extract_text_with_paddleocr env imgs w) =
     concat (map2 (@) (map separator [0..<length imgs]) (map (page_text env) imgs))"
    using extract_loop_text [of env 0 imgs "[]" w] by (simp add: extract_text_with_paddleocr_def)
  have "concat (map2 (@) ms (map (page_text env) imgs)) = concat ms"
    if "\<forall>b \<in> set imgs. page_text env b = []" and "length ms = length imgs" for ms :: "string list"
    using that
  proof (induction imgs arbitrary: ms)
    case Nil
    then show ?case by simp
  next
    case (Cons b imgs)
    then show ?case by (cases ms) simp_all
  qed
  with eq show ?thesis by (simp add: page_text_raises)
qed

lemma above_threshold:
  "line_confidence line > OCR_CONFIDENCE_THRESHOLD \<Longrightarrow> \<not> low_confidence line"
  by (simp add: OCR_CONFIDENCE_THRESHOLD_def low_confidence_def)

lemma high_confidence_discard:
  "high_confidence_texts (filter (\<lambda>line. \<not> low_confidence line) lines) =
   high_confidence_texts lines"
proof -
  have "filter (\<lambda>line. line_confidence line > OCR_CONFIDENCE_THRESHOLD)
          (filter (\<lambda>line. \<not> low_confidence line) lines) =
        filter (\<lambda>line. line_confidence line > OCR_CONFIDENCE_THRESHOLD) lines"
    by (induction lines) (auto dest: above_threshold)
  then show ?thesis by (simp only: high_confidence_texts_def)
qed

lemma high_confidence_Nil:
  "filter (\<lambda>line. \<not> low_confidence line) lines = [] \<Longrightarrow> high_confidence_texts lines = []"
  using high_confidence_discard [of lines] by (simp add: high_confidence_texts_def)

lemma page_text_discard:
  "page_text (env\<lparr>paddle_ocr := discard_low_confidence \<circ> paddle_ocr env\<rparr>) b = page_text env b"
proof (cases "paddle_ocr env (preprocess_image_for_ocr env b)")
  case Ocr_raises
  then show ?thesis
    by (simp add: page_text_def preprocess_image_for_ocr_def discard_low_confidence_def)
next
  case (Ocr_result result)
  show ?thesis
  proof (cases result)
    case Nil
    with Ocr_result show ?thesis
      by (simp add: page_text_def preprocess_image_for_ocr_def discard_low_confidence_def)
  next
    case (Cons r rs)
    show ?thesis
    proof (cases r)
      case None
      with Ocr_result Cons show ?thesis
        by (simp add: page_text_def preprocess_image_for_ocr_def discard_low_confidence_def)
    next
      case (Some lines)
      with Ocr_result Cons show ?thesis
        by (auto simp: page_text_def preprocess_image_for_ocr_def discard_low_confidence_def
            high_confidence_discard high_confidence_Nil)
    qed
  qed
qed

lemma page_text_cases:
  "page_text env b = [] \<or>
   (\<exists>lines rest kept.
      paddle_ocr env (preprocess_image_for_ocr env b) = Ocr_result (Some lines # rest) \<and>
      kept = filter (\<lambda>line. line_confidence line > OCR_CONFIDENCE_THRESHOLD) lines \<and>
      page_text env b = join [CHR 0x0A] (map line_text kept) \<and>
      (\<forall>line \<in> set kept. line_confidence line > 0.80))"
  by (auto simp: page_text_def high_confidence_texts_def low_confidence_def
      dest: above_threshold split: ocr_outcome.splits list.splits option.splits)

text \<open>
  Claim C3. The raw text does not depend on the lines of confidence 0.80 or less:
  taking them out of what the engine returns leaves the raw text as it is. What a
  picture adds is nothing, or the texts of the lines that pass the threshold, in the
  order of the engine, joined by line feeds; each of these lines has a confidence above
  0.80.
\<close>

theorem low_confidence_lines_discarded:
  "fst (extract_text_with_paddleocr env imgs w) =
     fst (extract_text_with_paddleocr (env\<lparr>paddle_ocr := discard_low_confidence \<circ> paddle_ocr env\<rparr>) imgs w) \<and>
   (page_text env b = [] \<or>
    (\<exists>lines rest kept.
       paddle_ocr env (preprocess_image_for_ocr env b) = Ocr_result (Some lines # rest) \<and>
       kept = filter (\<lambda>line. line_confidence line > OCR_CONFIDENCE_THRESHOLD) lines \<and>
       page_text env b = join [CHR 0x0A] (map line_text kept) \<and>
       (\<forall>line \<in> set kept. line_confidence line > 0.80)))"
proof -
  have "map (page_text (env\<lparr>paddle_ocr := discard_low_confidence \<circ> paddle_ocr env\<rparr>)) imgs = map (page_text env) imgs"
    by (simp add: page_text_discard)
  then have "fst (extract_text_with_paddleocr env imgs w) =
     fst (extract_text_with_paddleocr (env\<lparr>paddle_ocr := discard_low_confidence \<circ> paddle_ocr env\<rparr>) imgs w)"
    by (simp only: extract_text_with_paddleocr_def extract_loop_text)
  with page_text_cases [of env b] show ?thesis by blast
qed

section \<open>Face location\<close>

lemma sorted_reverse_head:
  assumes "sorted_reverse k xs = f # fs"
  shows "f \<in> set xs \<and> (\<forall>g \<in> set xs. k g \<le> k f)"
proof -
  from assms have s: "sort_key k (rev xs) = rev fs @ [f]"
    by (metis rev.simps(2) rev_rev_ident sorted_reverse_def)
  have "set (sort_key k (rev xs)) = set xs" by simp
  with s have mem: "set xs = insert f (set fs)" by auto
  have "sorted (map k (sort_key k (rev xs)))" by simp
  with s have "sorted (map k (rev fs) @ [k f])" by simp
  then have "\<forall>g \<in> set fs. k g \<le> k f" by (auto simp: sorted_append)
  with mem show ?thesis by auto
qed

lemma length_sorted_reverse: "length (sorted_reverse k xs) = length xs"
  by (simp add: sorted_reverse_def)

lemma sorted_reverse_Nil: "sorted_reverse k xs = [] \<longleftrightarrow> xs = []"
  using length_sorted_reverse [of k xs] by (metis length_0_conv)

lemma face_none_iff:
  "fst (detect_and_crop_face env imgs w) = None \<longleftrightarrow> (\<forall>b \<in> set imgs. candidates env b = [])"
proof (induction imgs arbitrary: w)
  case Nil
  then show ?case by simp
next
  case (Cons b imgs)
  show ?case
  proof (cases "candidates env b = []")
    case True
    then have "detect_and_crop_face env (b # imgs) w = detect_and_crop_face env imgs w \<or>
       detect_and_crop_face env (b # imgs) w = detect_and_crop_face env imgs (log_event (Detect_call b) w)"
      by (auto simp: candidates_def Let_def split: option.splits)
    with Cons.IH True show ?thesis by auto
  next
    case False
    then obtain img faces where d: "imdecode env b = Some img" "detect_multi_scale env img = Some faces"
      "faces \<noteq> []"
      by (auto simp: candidates_def split: option.splits)
    then have "sorted_reverse area faces \<noteq> []" by (simp add: sorted_reverse_Nil)
    then obtain f fs where "sorted_reverse area faces = f # fs" by (cases "sorted_reverse area faces") auto
    with d False show ?thesis by (simp add: Let_def)
  qed
qed

lemma face_some:
  assumes "detect_and_crop_face env imgs w = (Some crop, w')"
  shows "\<exists>pre b post img f.
           imgs = pre @ b # post \<and> (\<forall>p \<in> set pre. candidates env p = []) \<and>
           imdecode env b = Some img \<and> f \<in> set (candidates env b) \<and>
           (\<forall>g \<in> set (candidates env b). area g \<le> area f) \<and>
           crop = crop_encode env img f \<and>
           events w' = events w @ map Detect_call (filter (\<lambda>p. imdecode env p \<noteq> None) (pre @ [b]))"
  using assms
proof (induction imgs arbitrary: w)
  case Nil
  then show ?case by simp
next
  case (Cons a imgs)
  let ?goal = "\<lambda>w. \<exists>pre b post img f.
           a # imgs = pre @ b # post \<and> (\<forall>p \<in> set pre. candidates env p = []) \<and>
           imdecode env b = Some img \<and> f \<in> set (candidates env b) \<and>
           (\<forall>g \<in> set (candidates env b). area g \<le> area f) \<and>
           crop = crop_encode env img f \<and>
           events w' = events w @ map Detect_call (filter (\<lambda>p. imdecode env p \<noteq> None) (pre @ [b]))"
  have step: "?goal w" if rec: "detect_and_crop_face env imgs w1 = (Some crop, w')"
    and c: "candidates env a = []"
    and ev: "events w1 = events w @ map Detect_call (filter (\<lambda>p. imdecode env p \<noteq> None) [a])"
    for w1
  proof -
    from Cons.IH [OF rec] obtain pre b post img f where
      h: "imgs = pre @ b # post" "\<forall>p \<in> set pre. candidates env p = []"
      "imdecode env b = Some img" "f \<in> set (candidates env b)"
      "\<forall>g \<in> set (candidates env b). area g \<le> area f" "crop = crop_encode env img f"
      "events w' = events w1 @ map Detect_call (filter (\<lambda>p. imdecode env p \<noteq> None) (pre @ [b]))"
      by blast
    have "a # imgs = (a # pre) @ b # post" using h(1) by simp
    moreover have "\<forall>p \<in> set (a # pre). candidates env p = []" using h(2) c by simp
    moreover have "events w' = events w @ map Detect_call (filter (\<lambda>p. imdecode env p \<noteq> None) ((a # pre) @ [b]))"
      using h(7) ev by simp
    ultimately show ?thesis using h(3-6) by blast
  qed
  show ?case
  proof (cases "imdecode env a")
    case None
    with Cons.prems have "detect_and_crop_face env imgs w = (Some crop, w')" by simp
    moreover from None have "candidates env a = []" by (simp add: candidates_def)
    moreover from None have "events w = events w @ map Detect_call (filter (\<lambda>p. imdecode env p \<noteq> None) [a])"
      by simp
    ultimately show ?thesis by (rule step)
  next
    case (Some img)
    let ?w1 = "log_event (Detect_call a) w"
    have ev: "events ?w1 = events w @ map Detect_call (filter (\<lambda>p. imdecode env p \<noteq> None) [a])"
      using Some by (simp add: log_event_def)
    show ?thesis
    proof (cases "candidates env a = []")
      case True
      with Some Cons.prems have "detect_and_crop_face env imgs ?w1 = (Some crop, w')"
        by (auto simp: candidates_def Let_def split: option.splits)
      then show ?thesis using True ev by (rule step)
    next
      case False
      with Some obtain faces where d: "detect_multi_scale env img = Some faces" "faces \<noteq> []"
        "candidates env a = faces"
        by (auto simp: candidates_def split: option.splits)
      then have "sorted_reverse area faces \<noteq> []" by (simp add: sorted_reverse_Nil)
      then obtain f fs where sr: "sorted_reverse area faces = f # fs"
        by (cases "sorted_reverse area faces") auto
      with Some d Cons.prems have r: "crop = crop_encode env img f" "w' = ?w1"
        by (simp_all add: Let_def)
      from sorted_reverse_head [OF sr] have m: "f \<in> set faces" "\<forall>g \<in> set faces. area g \<le> area f"
        by simp_all
      have "a # imgs = [] @ a # imgs" by simp
      moreover have "\<forall>p \<in> set []. candidates env p = []" by simp
      moreover have "events w' = events w @ map Detect_call (filter (\<lambda>p. imdecode env p \<noteq> None) ([] @ [a]))"
        using ev r(2) by simp
      ultimately show ?thesis using Some m d(3) r(1) by blast
    qed
  qed
qed

text \<open>
  Claim C6. Face location returns no crop exactly when the classifier reports no region
  on any picture (a picture that does not decode reports none). When it returns a crop,
  the crop is cut from the first picture of the list on which the classifier reports a
  region, around a region of that picture whose area is at least the area of every
  region of that picture, and the classifier has been called on no picture after it.
\<close>

theorem face_locator_first_largest:
  "(fst (detect_and_crop_face env imgs w) = None \<longleftrightarrow> (\<forall>b \<in> set imgs. candidates env b = [])) \<and>
   (\<forall>crop w'. detect_and_crop_face env imgs w = (Some crop, w') \<longrightarrow>
      (\<exists>pre b post img f.
           imgs = pre @ b # post \<and> (\<forall>p \<in> set pre. candidates env p = []) \<and>
           imdecode env b = Some img \<and> f \<in> set (candidates env b) \<and>
           (\<forall>g \<in> set (candidates env b). area g \<le> area f) \<and>
           crop = crop_encode env img f \<and>
           events w' = events w @ map Detect_call (filter (\<lambda>p. imdecode env p \<noteq> None) (pre @ [b]))))"
  using face_none_iff [of env imgs w] face_some [of env imgs w] by blast

section \<open>The world along a run\<close>

lemma log_event_simps [simp]:
  "events (log_event e w) = events w @ [e]"
  "documents (log_event e w) = documents w"
  "next_id (log_event e w) = next_id w"
  "db_reachable (log_event e w) = db_reachable w"
  by (simp_all add: log_event_def)

lemma update_state_simps [simp]:
  "events (update_state s w) = events w @ [Progress s]"
  "documents (update_state s w) = documents w"
  "next_id (update_state s w) = next_id w"
  "db_reachable (update_state s w) = db_reachable w"
  by (simp_all add: update_state_def)

lemma extract_loop_world:
  "events (snd (extract_loop env i imgs (t, w))) =
     events w @ map (\<lambda>b. Ocr_call (preprocess_image_for_ocr env b)) imgs \<and>
   documents (snd (extract_loop env i imgs (t, w))) = documents w \<and>
   next_id (snd (extract_loop env i imgs (t, w))) = next_id w \<and>
   db_reachable (snd (extract_loop env i imgs (t, w))) = db_reachable w"
  by (induction imgs arbitrary: i t w) simp_all

lemma extract_world:
  assumes "extract_text_with_paddleocr env imgs w = (raw_text, w')"
  shows "events w' = events w @ map (\<lambda>b. Ocr_call (preprocess_image_for_ocr env b)) imgs"
    and "documents w' = documents w" and "next_id w' = next_id w"
    and "db_reachable w' = db_reachable w"
  using assms extract_loop_world [of env 0 imgs "[]" w]
  by (simp_all add: extract_text_with_paddleocr_def)

lemma structure_world:
  assumes "structure_data_with_master_prompt env t b64 w = (data, w')"
  shows "events w' = events w @ [Generate_call (master_prompt env t) b64]"
    and "documents w' = documents w" and "next_id w' = next_id w"
    and "db_reachable w' = db_reachable w"
  using assms by (auto simp: structure_data_with_master_prompt_def Let_def)

lemma detect_world:
  "(\<exists>evs. events (snd (detect_and_crop_face env imgs w)) = events w @ evs) \<and>
   documents (snd (detect_and_crop_face env imgs w)) = documents w \<and>
   next_id (snd (detect_and_crop_face env imgs w)) = next_id w \<and>
   db_reachable (snd (detect_and_crop_face env imgs w)) = db_reachable w"
proof (induction imgs arbitrary: w)
  case Nil
  then show ?case by simp
next
  case (Cons b imgs)
  have "detect_and_crop_face env (b # imgs) w = detect_and_crop_face env imgs w \<or>
        detect_and_crop_face env (b # imgs) w = detect_and_crop_face env imgs (log_event (Detect_call b) w) \<or>
        snd (detect_and_crop_face env (b # imgs) w) = log_event (Detect_call b) w"
    by (auto simp: Let_def split: option.splits list.splits)
  then consider (a) "detect_and_crop_face env (b # imgs) w = detect_and_crop_face env imgs w"
    | (b) "detect_and_crop_face env (b # imgs) w = detect_and_crop_face env imgs (log_event (Detect_call b) w)"
    | (c) "snd (detect_and_crop_face env (b # imgs) w) = log_event (Detect_call b) w"
    by blast
  then show ?case
  proof cases
    case a
    with Cons.IH [of w] show ?thesis by simp
  next
    case b
    from Cons.IH [of "log_event (Detect_call b) w"] obtain evs where
      "events (snd (detect_and_crop_face env imgs (log_event (Detect_call b) w))) = (events w @ [Detect_call b]) @ evs"
      by auto
    then have "events (snd (detect_and_crop_face env imgs (log_event (Detect_call b) w))) = events w @ (Detect_call b # evs)"
      by simp
    then have "\<exists>evs. events (snd (detect_and_crop_face env imgs (log_event (Detect_call b) w))) = events w @ evs" ..
    with b Cons.IH [of "log_event (Detect_call b) w"] show ?thesis by simp
  next
    case c
    then show ?thesis by simp
  qed
qed

lemma structure_error_record:
  assumes "requests_post env (master_prompt env t) b64 = Post_raises e \<or>
     (\<exists>r. requests_post env (master_prompt env t) b64 = Post_returns r \<and> raise_for_status r = Some e) \<or>
     (\<exists>r. requests_post env (master_prompt env t) b64 = Post_returns r \<and> raise_for_status r = None \<and>
          json_loads env (body r) = Inl e) \<or>
     (\<exists>r reply s. requests_post env (master_prompt env t) b64 = Post_returns r \<and> raise_for_status r = None \<and>
          json_loads env (body r) = Inr (JObj reply) \<and> map_of reply ''response'' = Some (JStr s) \<and>
          json_loads env s = Inl e)"
  shows "fst (structure_data_with_master_prompt env t b64 w) = error_record e"
  using assms
  by (auto simp: structure_data_with_master_prompt_def Let_def decode_reply_def loads_or_error_def)

lemma raise_for_status_iff:
  "raise_for_status r \<noteq> None \<longleftrightarrow> 400 \<le> status_code r \<and> status_code r < 600"
  by (auto simp: raise_for_status_def)

lemma task_aborts_on_error_key:
  assumes "read_files env d (sort (map fst d)) ([], []) = Inr (imgs, origs)" and "imgs \<noteq> []"
    and "extract_text_with_paddleocr env imgs
           (update_state ''Cleaning images & performing high-accuracy OCR...'' w) = (raw_text, w2)"
    and "structure_data_with_master_prompt env raw_text (map (b64encode env) imgs)
           (update_state ''AI is analyzing and structuring the document...'' w2) = (JObj items, w4)"
    and "map_of items ''error'' = Some v"
  shows "process_documents_task env d dtype w = (Inl (Exception v), w4)"
    and "documents w4 = documents w"
    and "events w4 = events w @ [Progress ''Cleaning images & performing high-accuracy OCR...''] @
           map (\<lambda>b. Ocr_call (preprocess_image_for_ocr env b)) imgs @
           [Progress ''AI is analyzing and structuring the document...'',
            Generate_call (master_prompt env raw_text) (map (b64encode env) imgs)]"
proof -
  from assms(5) have "(''error'', v) \<in> set items" by (rule map_of_SomeD)
  then have "''error'' \<in> fst ` set items" by force
  with assms show "process_documents_task env d dtype w = (Inl (Exception v), w4)"
    by (simp add: process_documents_task_def)
  from extract_world [OF assms(3)] structure_world [OF assms(4)]
  show "documents w4 = documents w"
    and "events w4 = events w @ [Progress ''Cleaning images & performing high-accuracy OCR...''] @
           map (\<lambda>b. Ocr_call (preprocess_image_for_ocr env b)) imgs @
           [Progress ''AI is analyzing and structuring the document...'',
            Generate_call (master_prompt env raw_text) (map (b64encode env) imgs)]"
    by simp_all
qed

lemma task_success_shape:
  assumes "process_documents_task env d dtype w = (Inr new_id, w')"
  shows "\<exists>imgs origs data face.
           read_files env d (sort (map fst d)) ([], []) = Inr (imgs, origs) \<and>
           new_id = next_id w \<and>
           documents w' = documents w @
             [\<lparr>doc_id = next_id w, doc_type = dtype, extracted_data = data,
               original_images = origs, face_image = face\<rparr>]"
proof -
  from read_files_total obtain imgs origs
    where rf: "read_files env d (sort (map fst d)) ([], []) = Inr (imgs, origs)" by blast
  obtain raw_text w2 where ex: "extract_text_with_paddleocr env imgs
      (update_state ''Cleaning images & performing high-accuracy OCR...'' w) = (raw_text, w2)"
    by (cases "extract_text_with_paddleocr env imgs
      (update_state ''Cleaning images & performing high-accuracy OCR...'' w)")
  obtain data w4 where st: "structure_data_with_master_prompt env raw_text (map (b64encode env) imgs)
      (update_state ''AI is analyzing and structuring the document...'' w2) = (data, w4)"
    by (cases "structure_data_with_master_prompt env raw_text (map (b64encode env) imgs)
      (update_state ''AI is analyzing and structuring the document...'' w2)")
  let ?w6 = "update_state ''Detecting faces...''
               (update_state ''Validating and formatting final data...'' w4)"
  obtain face w7 where fd: "detect_and_crop_face env imgs ?w6 = (face, w7)"
    by (cases "detect_and_crop_face env imgs ?w6")
  from detect_world [of env imgs ?w6] fd
  have w7: "documents w7 = documents w4" "next_id w7 = next_id w4" "db_reachable w7 = db_reachable w4"
    by simp_all
  from extract_world [OF ex] structure_world [OF st]
  have w4: "documents w4 = documents w" "next_id w4 = next_id w" "db_reachable w4 = db_reachable w"
    by simp_all
  let ?final = "post_process_and_validate (strftime_Y env) data"
  from assms rf ex st fd
  have "save_processed_document dtype ?final origs face (update_state ''Saving to database...'' w7) =
          (Inr new_id, w')"
    by (simp add: process_documents_task_def split: if_splits sum.splits bool.splits)
  then have "new_id = next_id w \<and>
     documents w' = documents w @
             [\<lparr>doc_id = next_id w, doc_type = dtype, extracted_data = ?final,
               original_images = origs, face_image = face\<rparr>]"
    using w7 w4 by (auto simp: save_processed_document_def split: if_splits)
  with rf show ?thesis by blast
qed

text \<open>
  Claim C9. When the task succeeds on a submission, it has added one row, the one whose
  identity it returns, and the original pictures of the row are the bytes of the
  submitted files, one for each file, in ascending order of the keys, whatever the files
  decoded to.
\<close>

theorem originals_persisted_in_key_order:
  assumes "distinct (map fst d)"
    and "process_documents_task env d dtype w = (Inr new_id, w')"
  shows "\<exists>row. documents w' = documents w @ [row] \<and> doc_id row = new_id \<and>
           original_images row = map raw_bytes (sort_key fst d) \<and>
           length (original_images row) = length d"
proof -
  from task_success_shape [OF assms(2)] obtain imgs origs data face where
    rf: "read_files env d (sort (map fst d)) ([], []) = Inr (imgs, origs)"
    and id: "new_id = next_id w"
    and docs: "documents w' = documents w @
             [\<lparr>doc_id = next_id w, doc_type = dtype, extracted_data = data,
               original_images = origs, face_image = face\<rparr>]"
    by blast
  from rf read_files_sorted [OF assms(1), of env] have "origs = map raw_bytes (sort_key fst d)"
    by simp
  with id docs show ?thesis by simp
qed

lemma task_run:
  assumes "read_files env d (sort (map fst d)) ([], []) = Inr (imgs, origs)" and "imgs \<noteq> []"
    and "extract_text_with_paddleocr env imgs
           (update_state ''Cleaning images & performing high-accuracy OCR...'' w) = (raw_text, w2)"
    and "structure_data_with_master_prompt env raw_text (map (b64encode env) imgs)
           (update_state ''AI is analyzing and structuring the document...'' w2) = (data, w4)"
    and "error_in data = Inr False"
    and "detect_and_crop_face env imgs
           (update_state ''Detecting faces...''
              (update_state ''Validating and formatting final data...'' w4)) = (face, w7)"
  shows "process_documents_task env d dtype w =
           save_processed_document dtype (post_process_and_validate (strftime_Y env) data) origs face
             (update_state ''Saving to database...'' w7)"
  using assms by (simp add: process_documents_task_def)

lemma structure_empty_record:
  assumes "requests_post env (master_prompt env t) b64 = Post_returns r"
    and "200 \<le> status_code r" and "status_code r < 300"
    and "json_loads env (body r) = Inr (JObj reply)" and "map_of reply ''response'' = None"
    and "json_loads env ''{}'' = Inr (JObj [])"
  shows "fst (structure_data_with_master_prompt env t b64 w) = JObj []"
  using assms
  by (simp add: structure_data_with_master_prompt_def Let_def raise_for_status_def
      decode_reply_def loads_or_error_def)

text \<open>
  Claim C10. When the endpoint answers with a status from 200 to 299 and a body that
  decodes to an object without the key \<^verbatim>\<open>response\<close>, the structuring engine returns
  the empty object, which has no key \<^verbatim>\<open>error\<close>; a run on a submission with a picture
  then goes through validation and stores a row whose extracted data is the empty object.
\<close>

theorem missing_response_key_gives_empty_record:
  assumes "\<And>p i. requests_post env p i = Post_returns r"
    and "200 \<le> status_code r" and "status_code r < 300"
    and "json_loads env (body r) = Inr (JObj reply)" and "map_of reply ''response'' = None"
    and "json_loads env ''{}'' = Inr (JObj [])"
  shows "fst (structure_data_with_master_prompt env t b64 w) = JObj [] \<and>
    (read_files env d (sort (map fst d)) ([], []) = Inr (imgs, origs) \<and> imgs \<noteq> [] \<and> db_reachable w0 \<longrightarrow>
       (\<exists>w' face. process_documents_task env d dtype w0 = (Inr (next_id w0), w') \<and>
          documents w' = documents w0 @
            [\<lparr>doc_id = next_id w0, doc_type = dtype, extracted_data = JObj [],
              original_images = origs, face_image = face\<rparr>] \<and>
          Progress ''Validating and formatting final data...'' \<in> set (events w')))"
proof -
  have eng: "fst (structure_data_with_master_prompt env t' b' w1) = JObj []" for t' b' w1
    using assms(1) [of "master_prompt env t'" b'] assms(2-6) by (rule structure_empty_record)
  have run: "\<exists>w' face. process_documents_task env d dtype w0 = (Inr (next_id w0), w') \<and>
          documents w' = documents w0 @
            [\<lparr>doc_id = next_id w0, doc_type = dtype, extracted_data = JObj [],
              original_images = origs, face_image = face\<rparr>] \<and>
          Progress ''Validating and formatting final data...'' \<in> set (events w')"
    if rf: "read_files env d (sort (map fst d)) ([], []) = Inr (imgs, origs)"
      and ne: "imgs \<noteq> []" and db: "db_reachable w0"
  proof -
    obtain raw_text w2 where ex: "extract_text_with_paddleocr env imgs
        (update_state ''Cleaning images & performing high-accuracy OCR...'' w0) = (raw_text, w2)"
      by (cases "extract_text_with_paddleocr env imgs
        (update_state ''Cleaning images & performing high-accuracy OCR...'' w0)")
    obtain data w4 where st: "structure_data_with_master_prompt env raw_text (map (b64encode env) imgs)
        (update_state ''AI is analyzing and structuring the document...'' w2) = (data, w4)"
      by (cases "structure_data_with_master_prompt env raw_text (map (b64encode env) imgs)
        (update_state ''AI is analyzing and structuring the document...'' w2)")
    from eng [of raw_text "map (b64encode env) imgs"
        "update_state ''AI is analyzing and structuring the document...'' w2"] st
    have data: "data = JObj []" by simp
    let ?w6 = "update_state ''Detecting faces...''
                 (update_state ''Validating and formatting final data...'' w4)"
    obtain face w7 where fd: "detect_and_crop_face env imgs ?w6 = (face, w7)"
      by (cases "detect_and_crop_face env imgs ?w6")
    from detect_world [of env imgs ?w6] fd obtain evs
      where w7: "events w7 = events ?w6 @ evs" "documents w7 = documents w4"
        "next_id w7 = next_id w4" "db_reachable w7 = db_reachable w4"
      by auto
    from extract_world [OF ex] structure_world [OF st]
    have w4: "documents w4 = documents w0" "next_id w4 = next_id w0" "db_reachable w4 = db_reachable w0"
      by simp_all
    let ?w8 = "update_state ''Saving to database...'' w7"
    let ?w' = "?w8\<lparr>documents := documents ?w8 @
              [\<lparr>doc_id = next_id ?w8, doc_type = dtype, extracted_data = JObj [],
                original_images = origs, face_image = face\<rparr>],
           next_id := Suc (next_id ?w8)\<rparr>"
    from data have ok: "error_in data = Inr False" by simp
    have "process_documents_task env d dtype w0 = (Inr (next_id w0), ?w')"
      unfolding task_run [OF rf ne ex st ok fd]
      using db w7 w4 data by (simp add: save_processed_document_def post_process_and_validate_def)
    moreover have "documents ?w' = documents w0 @
            [\<lparr>doc_id = next_id w0, doc_type = dtype, extracted_data = JObj [],
              original_images = origs, face_image = face\<rparr>]"
      using w7 w4 by simp
    moreover have "Progress ''Validating and formatting final data...'' \<in> set (events ?w')"
      using w7(1) by simp
    ultimately show ?thesis by blast
  qed
  from eng run show ?thesis by blast
qed

lemma save_events [simp]:
  "events (snd (save_processed_document dtype data origs face w)) = events w"
  by (simp add: save_processed_document_def)

lemma task_events:
  assumes rf: "read_files env d (sort (map fst d)) ([], []) = Inr (imgs, origs)" and ne: "imgs \<noteq> []"
  shows "\<exists>raw_text rest. events (snd (process_documents_task env d dtype w)) =
           events w @ [Progress ''Cleaning images & performing high-accuracy OCR...''] @
           map (\<lambda>b. Ocr_call (preprocess_image_for_ocr env b)) imgs @
           [Progress ''AI is analyzing and structuring the document...'',
            Generate_call (master_prompt env raw_text) (map (b64encode env) imgs)] @ rest"
proof -
  obtain raw_text w2 where ex: "extract_text_with_paddleocr env imgs
      (update_state ''Cleaning images & performing high-accuracy OCR...'' w) = (raw_text, w2)"
    by (cases "extract_text_with_paddleocr env imgs
      (update_state ''Cleaning images & performing high-accuracy OCR...'' w)")
  obtain data w4 where st: "structure_data_with_master_prompt env raw_text (map (b64encode env) imgs)
      (update_state ''AI is analyzing and structuring the document...'' w2) = (data, w4)"
    by (cases "structure_data_with_master_prompt env raw_text (map (b64encode env) imgs)
      (update_state ''AI is analyzing and structuring the document...'' w2)")
  let ?w6 = "update_state ''Detecting faces...''
               (update_state ''Validating and formatting final data...'' w4)"
  obtain face w7 where fd: "detect_and_crop_face env imgs ?w6 = (face, w7)"
    by (cases "detect_and_crop_face env imgs ?w6")
  let ?head = "events w @ [Progress ''Cleaning images & performing high-accuracy OCR...''] @
           map (\<lambda>b. Ocr_call (preprocess_image_for_ocr env b)) imgs @
           [Progress ''AI is analyzing and structuring the document...'',
            Generate_call (master_prompt env raw_text) (map (b64encode env) imgs)]"
  from extract_world(1) [OF ex] structure_world(1) [OF st]
  have w4: "events w4 = ?head" by simp
  from detect_world [of env imgs ?w6] fd obtain evs where "events w7 = events ?w6 @ evs" by auto
  with w4 have w7: "events w7 = ?head @ [Progress ''Validating and formatting final data...'',
      Progress ''Detecting faces...''] @ evs" by simp
  have "events (snd (process_documents_task env d dtype w)) = events w4 \<or>
        events (snd (process_documents_task env d dtype w)) = events w7 @ [Progress ''Saving to database...'']"
    using rf ne ex st fd
    by (simp add: process_documents_task_def split: sum.splits bool.splits)
  then show ?thesis
  proof
    assume "events (snd (process_documents_task env d dtype w)) = events w4"
    with w4 have "events (snd (process_documents_task env d dtype w)) = ?head @ []" by simp
    then show ?thesis by (simp only: append_assoc) blast
  next
    assume "events (snd (process_documents_task env d dtype w)) = events w7 @ [Progress ''Saving to database...'']"
    with w7 have "events (snd (process_documents_task env d dtype w)) =
      ?head @ ([Progress ''Validating and formatting final data...'',
      Progress ''Detecting faces...''] @ evs @ [Progress ''Saving to database...''])" by simp
    then show ?thesis by (simp only: append_assoc) blast
  qed
qed

lemma process_file_input_cases:
  "(\<not> endswith (lower filename) ''.pdf'' \<longrightarrow>
      process_file_input env file_bytes filename = [normalize_image env file_bytes]) \<and>
   (endswith (lower filename) ''.pdf'' \<and> fitz_open env file_bytes = None \<longrightarrow>
      process_file_input env file_bytes filename = []) \<and>
   (endswith (lower filename) ''.pdf'' \<and> fitz_open env file_bytes = Some pages \<longrightarrow>
      (\<exists>rendered. map Some rendered = takeWhile (\<lambda>p. p \<noteq> None) pages \<and>
         process_file_input env file_bytes filename = map (normalize_image env) rendered))"
  using render_pages_eq [of pages env] by (simp add: process_file_input_def)

text \<open>
  Claim C8, amended. The files of a submission are read in ascending (lexicographic)
  order of their keys, and the pictures they decode to are put one after the other in
  that order; recognition and the language model receive them in that order. A file
  whose name does not end in \<^verbatim>\<open>.pdf\<close>, in any case of the letters, gives exactly one
  picture. A document that cannot be opened gives none. A document that opens gives its
  pages in page order up to the first page whose rendering fails, which is none only when
  the first page fails. Nothing of this raises.
\<close>

theorem files_decoded_in_key_order:
  "(distinct (map fst d) \<longrightarrow>
      sorted (map fst (sort_key fst d)) \<and> set (sort_key fst d) = set d \<and>
      read_files env d (sort (map fst d)) ([], []) =
        Inr (concat (map (decode_file env) (sort_key fst d)), map raw_bytes (sort_key fst d)) \<and>
      (concat (map (decode_file env) (sort_key fst d)) \<noteq> [] \<longrightarrow>
         (\<exists>raw_text rest. events (snd (process_documents_task env d dtype w)) =
            events w @ [Progress ''Cleaning images & performing high-accuracy OCR...''] @
            map (\<lambda>b. Ocr_call (preprocess_image_for_ocr env b))
              (concat (map (decode_file env) (sort_key fst d))) @
            [Progress ''AI is analyzing and structuring the document...'',
             Generate_call (master_prompt env raw_text)
               (map (b64encode env) (concat (map (decode_file env) (sort_key fst d))))] @ rest))) \<and>
   (\<not> endswith (lower filename) ''.pdf'' \<longrightarrow>
      process_file_input env file_bytes filename = [normalize_image env file_bytes]) \<and>
   (endswith (lower filename) ''.pdf'' \<and> fitz_open env file_bytes = None \<longrightarrow>
      process_file_input env file_bytes filename = []) \<and>
   (endswith (lower filename) ''.pdf'' \<and> fitz_open env file_bytes = Some pages \<longrightarrow>
      (\<exists>rendered. map Some rendered = takeWhile (\<lambda>p. p \<noteq> None) pages \<and>
         process_file_input env file_bytes filename = map (normalize_image env) rendered))"
proof -
  have "sorted (map fst (sort_key fst d)) \<and> set (sort_key fst d) = set d \<and>
      read_files env d (sort (map fst d)) ([], []) =
        Inr (concat (map (decode_file env) (sort_key fst d)), map raw_bytes (sort_key fst d)) \<and>
      (concat (map (decode_file env) (sort_key fst d)) \<noteq> [] \<longrightarrow>
         (\<exists>raw_text rest. events (snd (process_documents_task env d dtype w)) =
            events w @ [Progress ''Cleaning images & performing high-accuracy OCR...''] @
            map (\<lambda>b. Ocr_call (preprocess_image_for_ocr env b))
              (concat (map (decode_file env) (sort_key fst d))) @
            [Progress ''AI is analyzing and structuring the document...'',
             Generate_call (master_prompt env raw_text)
               (map (b64encode env) (concat (map (decode_file env) (sort_key fst d))))] @ rest))"
    if dist: "distinct (map fst d)"
  proof -
    note rf = read_files_sorted [OF dist, of env]
    have "sorted (map fst (sort_key fst d))" "set (sort_key fst d) = set d" by simp_all
    moreover note rf
    moreover have "\<exists>raw_text rest. events (snd (process_documents_task env d dtype w)) =
            events w @ [Progress ''Cleaning images & performing high-accuracy OCR...''] @
            map (\<lambda>b. Ocr_call (preprocess_image_for_ocr env b))
              (concat (map (decode_file env) (sort_key fst d))) @
            [Progress ''AI is analyzing and structuring the document...'',
             Generate_call (master_prompt env raw_text)
               (map (b64encode env) (concat (map (decode_file env) (sort_key fst d))))] @ rest"
      if "concat (map (decode_file env) (sort_key fst d)) \<noteq> []"
      using rf that by (rule task_events)
    ultimately show ?thesis by blast
  qed
  with process_file_input_cases [of filename env file_bytes pages] show ?thesis by blast
qed

text \<open>
  Claim C4, amended. When the call of the endpoint raises, when the status of the
  reply is from 400 to 599 (the statuses on which \<^verbatim>\<open>raise_for_status\<close> raises), or
  when the body or the text under \<^verbatim>\<open>response\<close> is not JSON, the structuring engine
  returns the record whose only key is \<^verbatim>\<open>error\<close>, with the text of the failure at the
  end of its value. When the structuring result of a run has the key \<^verbatim>\<open>error\<close>, the
  run fails with the value under that key, in the world that the call of the endpoint
  left: the events are those of recognition and of the call, no row has been added.
\<close>

theorem structuring_failure_aborts_run:
  "((requests_post env (master_prompt env t) b64 = Post_raises e \<or>
     (\<exists>r. requests_post env (master_prompt env t) b64 = Post_returns r \<and> raise_for_status r = Some e) \<or>
     (\<exists>r. requests_post env (master_prompt env t) b64 = Post_returns r \<and> raise_for_status r = None \<and>
          json_loads env (body r) = Inl e) \<or>
     (\<exists>r reply s. requests_post env (master_prompt env t) b64 = Post_returns r \<and> raise_for_status r = None \<and>
          json_loads env (body r) = Inr (JObj reply) \<and> map_of reply ''response'' = Some (JStr s) \<and>
          json_loads env s = Inl e)) \<longrightarrow>
    fst (structure_data_with_master_prompt env t b64 w) =
      JObj [(''error'', JStr (''The language model failed to structure the text. Error: '' @ e))]) \<and>
   (raise_for_status r \<noteq> None \<longleftrightarrow> 400 \<le> status_code r \<and> status_code r < 600) \<and>
   (read_files env d (sort (map fst d)) ([], []) = Inr (imgs, origs) \<and> imgs \<noteq> [] \<and>
    extract_text_with_paddleocr env imgs
      (update_state ''Cleaning images & performing high-accuracy OCR...'' w0) = (raw_text, w2) \<and>
    structure_data_with_master_prompt env raw_text (map (b64encode env) imgs)
      (update_state ''AI is analyzing and structuring the document...'' w2) = (JObj items, w4) \<and>
    map_of items ''error'' = Some v \<longrightarrow>
      process_documents_task env d dtype w0 = (Inl (Exception v), w4) \<and>
      documents w4 = documents w0 \<and>
      events w4 = events w0 @ [Progress ''Cleaning images & performing high-accuracy OCR...''] @
           map (\<lambda>b. Ocr_call (preprocess_image_for_ocr env b)) imgs @
           [Progress ''AI is analyzing and structuring the document...'',
            Generate_call (master_prompt env raw_text) (map (b64encode env) imgs)])"
proof -
  have a: "fst (structure_data_with_master_prompt env t b64 w) =
      JObj [(''error'', JStr (''The language model failed to structure the text. Error: '' @ e))]"
    if "requests_post env (master_prompt env t) b64 = Post_raises e \<or>
     (\<exists>r. requests_post env (master_prompt env t) b64 = Post_returns r \<and> raise_for_status r = Some e) \<or>
     (\<exists>r. requests_post env (master_prompt env t) b64 = Post_returns r \<and> raise_for_status r = None \<and>
          json_loads env (body r) = Inl e) \<or>
     (\<exists>r reply s. requests_post env (master_prompt env t) b64 = Post_returns r \<and> raise_for_status r = None \<and>
          json_loads env (body r) = Inr (JObj reply) \<and> map_of reply ''response'' = Some (JStr s) \<and>
          json_loads env s = Inl e)"
    using structure_error_record [OF that] by (simp only: error_record_def)
  have c: "process_documents_task env d dtype w0 = (Inl (Exception v), w4) \<and>
      documents w4 = documents w0 \<and>
      events w4 = events w0 @ [Progress ''Cleaning images & performing high-accuracy OCR...''] @
           map (\<lambda>b. Ocr_call (preprocess_image_for_ocr env b)) imgs @
           [Progress ''AI is analyzing and structuring the document...'',
            Generate_call (master_prompt env raw_text) (map (b64encode env) imgs)]"
    if "read_files env d (sort (map fst d)) ([], []) = Inr (imgs, origs)" and "imgs \<noteq> []"
      and "extract_text_with_paddleocr env imgs
        (update_state ''Cleaning images & performing high-accuracy OCR...'' w0) = (raw_text, w2)"
      and "structure_data_with_master_prompt env raw_text (map (b64encode env) imgs)
        (update_state ''AI is analyzing and structuring the document...'' w2) = (JObj items, w4)"
      and "map_of items ''error'' = Some v"
    using task_aborts_on_error_key [OF that] by blast
  from a raise_for_status_iff [of r] c show ?thesis by blast
qed

section \<open>The theorems on the sample environment\<close>

lemmas env_defs = sample_env_def sample_world_def redirect_env_def failing_env_def terse_env_def
lemmas text_defs = endswith_def lower_def lower_char_def startswith_def str_nat.simps digit_char_def
lemmas step_defs = process_documents_task_def process_file_input_def normalize_image_def
  preprocess_image_for_ocr_def extract_text_with_paddleocr_def page_text_def separator_def
  high_confidence_texts_def OCR_CONFIDENCE_THRESHOLD_def structure_data_with_master_prompt_def
  raise_for_status_def decode_reply_def loads_or_error_def error_record_def
  update_state_def log_event_def save_processed_document_def sorted_reverse_def area_def
  post_process_and_validate_def validate_item_def OLLAMA_API_URL_def

theorem one_marker_per_image_witness:
  "paddle_ocr sample_env (preprocess_image_for_ocr sample_env ''Jp2'') = Ocr_raises \<and>
   fst (extract_text_with_paddleocr sample_env [''Jp2'', ''Jp2''] sample_world) =
     ''\<newline>--- TEXT FROM PAGE/IMAGE 1 ---\<newline>\<newline>--- TEXT FROM PAGE/IMAGE 2 ---\<newline>''"
proof -
  have h: "paddle_ocr sample_env (preprocess_image_for_ocr sample_env ''Jp2'') = Ocr_raises"
    by (simp add: env_defs step_defs)
  then have "\<forall>b \<in> set [''Jp2'', ''Jp2'']. paddle_ocr sample_env (preprocess_image_for_ocr sample_env b) = Ocr_raises"
    by simp
  with one_marker_per_image [of sample_env "[''Jp2'', ''Jp2'']" sample_world]
  have "fst (extract_text_with_paddleocr sample_env [''Jp2'', ''Jp2''] sample_world) =
     concat (map separator [0..<length [''Jp2'', ''Jp2'']])" by blast
  also have "\<dots> = ''\<newline>--- TEXT FROM PAGE/IMAGE 1 ---\<newline>\<newline>--- TEXT FROM PAGE/IMAGE 2 ---\<newline>''"
    by (simp add: separator_def text_defs upt_rec)
  finally show ?thesis using h by simp
qed

theorem low_confidence_lines_discarded_witness:
  "fst (extract_text_with_paddleocr sample_env [''Jp1''] sample_world) =
     ''\<newline>--- TEXT FROM PAGE/IMAGE 1 ---\<newline>NAME\<newline>15/03/1990'' \<and>
   fst (extract_text_with_paddleocr
          (sample_env\<lparr>paddle_ocr := discard_low_confidence \<circ> paddle_ocr sample_env\<rparr>)
          [''Jp1''] sample_world) =
     ''\<newline>--- TEXT FROM PAGE/IMAGE 1 ---\<newline>NAME\<newline>15/03/1990''"
proof -
  have e: "fst (extract_text_with_paddleocr sample_env [''Jp1''] sample_world) =
     ''\<newline>--- TEXT FROM PAGE/IMAGE 1 ---\<newline>NAME\<newline>15/03/1990''"
    by (simp add: env_defs text_defs step_defs)
  from low_confidence_lines_discarded [of sample_env "[''Jp1'']" sample_world]
  have "fst (extract_text_with_paddleocr sample_env [''Jp1''] sample_world) =
     fst (extract_text_with_paddleocr
          (sample_env\<lparr>paddle_ocr := discard_low_confidence \<circ> paddle_ocr sample_env\<rparr>)
          [''Jp1''] sample_world)" by blast
  with e show ?thesis by simp
qed

theorem face_locator_first_largest_witness:
  "detect_and_crop_face sample_env [''Jp1'', ''Jimg'', ''Jp2'', ''Jp2''] sample_world =
     (Some ''crop5Jp2'', sample_world\<lparr>events := [Detect_call ''Jimg'', Detect_call ''Jp2'']\<rparr>) \<and>
   (\<exists>pre b post img f.
      [''Jp1'', ''Jimg'', ''Jp2'', ''Jp2''] = pre @ b # post \<and>
      (\<forall>p \<in> set pre. candidates sample_env p = []) \<and>
      imdecode sample_env b = Some img \<and> f \<in> set (candidates sample_env b) \<and>
      (\<forall>g \<in> set (candidates sample_env b). area g \<le> area f) \<and>
      ''crop5Jp2'' = crop_encode sample_env img f)"
proof -
  have e: "detect_and_crop_face sample_env [''Jp1'', ''Jimg'', ''Jp2'', ''Jp2''] sample_world =
     (Some ''crop5Jp2'', sample_world\<lparr>events := [Detect_call ''Jimg'', Detect_call ''Jp2'']\<rparr>)"
    by (simp add: env_defs text_defs step_defs)
  with face_locator_first_largest
    [of sample_env "[''Jp1'', ''Jimg'', ''Jp2'', ''Jp2'']" sample_world]
  show ?thesis by blast
qed

theorem originals_persisted_in_key_order_witness:
  "distinct (map fst [(''file_1'', ''b.PDF'', ''two-pages''), (''file_0'', ''a.png'', ''img''),
                      (''file_2'', ''c.pdf'', ''corrupt'')]) \<and>
   fst (process_documents_task sample_env
     [(''file_1'', ''b.PDF'', ''two-pages''), (''file_0'', ''a.png'', ''img''), (''file_2'', ''c.pdf'', ''corrupt'')]
     ''passport'' sample_world) = Inr 1 \<and>
   (\<exists>row. documents (snd (process_documents_task sample_env
     [(''file_1'', ''b.PDF'', ''two-pages''), (''file_0'', ''a.png'', ''img''), (''file_2'', ''c.pdf'', ''corrupt'')]
     ''passport'' sample_world)) = [row] \<and> doc_id row = 1 \<and>
     original_images row = [''img'', ''two-pages'', ''corrupt''])"
proof -
  let ?d = "[(''file_1'', ''b.PDF'', ''two-pages''), (''file_0'', ''a.png'', ''img''),
             (''file_2'', ''c.pdf'', ''corrupt'')]"
  let ?run = "process_documents_task sample_env ?d ''passport'' sample_world"
  have dist: "distinct (map fst ?d)" by simp
  have r: "fst ?run = Inr 1" by (simp add: env_defs text_defs step_defs)
  then have "?run = (Inr 1, snd ?run)" by (metis prod.collapse)
  from originals_persisted_in_key_order [OF dist this]
  obtain row where "documents (snd ?run) = documents sample_world @ [row]" "doc_id row = 1"
    "original_images row = map raw_bytes (sort_key fst ?d)" by blast
  then have "documents (snd ?run) = [row] \<and> doc_id row = 1 \<and>
     original_images row = [''img'', ''two-pages'', ''corrupt'']"
    by (simp add: sample_world_def raw_bytes_def)
  with dist r show ?thesis by blast
qed

theorem missing_response_key_gives_empty_record_witness:
  "requests_post terse_env ''PROMPT text'' [] =
     Post_returns \<lparr>status_code = 200, reason = ''OK'', body = ''B''\<rparr> \<and>
   json_loads terse_env ''B'' = Inr (JObj [(''done'', JBool True)]) \<and>
   json_loads terse_env ''{}'' = Inr (JObj []) \<and>
   fst (structure_data_with_master_prompt terse_env ''text'' [] sample_world) = JObj [] \<and>
   fst (process_documents_task terse_env [(''file_0'', ''id.png'', ''img'')] ''passport'' sample_world) = Inr 1 \<and>
   map extracted_data (documents (snd (process_documents_task terse_env
       [(''file_0'', ''id.png'', ''img'')] ''passport'' sample_world))) = [JObj []]"
proof -
  let ?r = "\<lparr>status_code = 200, reason = ''OK'', body = ''B''\<rparr>"
  let ?d = "[(''file_0'', ''id.png'', ''img'')]"
  have post: "requests_post terse_env p i = Post_returns ?r" for p i
    by (simp add: env_defs)
  have j1: "json_loads terse_env (body ?r) = Inr (JObj [(''done'', JBool True)])"
    and j2: "json_loads terse_env ''{}'' = Inr (JObj [])"
    by (simp_all add: env_defs)
  have rf: "read_files terse_env ?d (sort (map fst ?d)) ([], []) = Inr ([''Jimg''], [''img''])"
    by (simp add: env_defs text_defs step_defs)
  note inst = missing_response_key_gives_empty_record
    [of terse_env ?r "[(''done'', JBool True)]" "''text''" "[]" sample_world ?d "[''Jimg'']" "[''img'']"
      sample_world "''passport''", OF post _ _ j1 _ j2]
  have inst': "fst (structure_data_with_master_prompt terse_env ''text'' [] sample_world) = JObj [] \<and>
    (read_files terse_env ?d (sort (map fst ?d)) ([], []) = Inr ([''Jimg''], [''img'']) \<and> [''Jimg''] \<noteq> [] \<and>
       db_reachable sample_world \<longrightarrow>
       (\<exists>w' face. process_documents_task terse_env ?d ''passport'' sample_world = (Inr (next_id sample_world), w') \<and>
          documents w' = documents sample_world @
            [\<lparr>doc_id = next_id sample_world, doc_type = ''passport'', extracted_data = JObj [],
              original_images = [''img''], face_image = face\<rparr>] \<and>
          Progress ''Validating and formatting final data...'' \<in> set (events w')))"
    by (rule inst) simp_all
  then obtain w' face where
    "process_documents_task terse_env ?d ''passport'' sample_world = (Inr (next_id sample_world), w')"
    "documents w' = documents sample_world @
            [\<lparr>doc_id = next_id sample_world, doc_type = ''passport'', extracted_data = JObj [],
              original_images = [''img''], face_image = face\<rparr>]"
    using rf by (auto simp: sample_world_def)
  then have "fst (process_documents_task terse_env ?d ''passport'' sample_world) = Inr 1 \<and>
     map extracted_data (documents (snd (process_documents_task terse_env ?d ''passport'' sample_world))) = [JObj []]"
    by (simp add: sample_world_def)
  with inst' post [of "''PROMPT text''" "[]"] j1 j2 show ?thesis by simp
qed

theorem structuring_failure_aborts_run_witness:
  "requests_post failing_env ''PROMPT text'' [] =
     Post_returns \<lparr>status_code = 503, reason = ''Service Unavailable'', body = []\<rparr> \<and>
   fst (structure_data_with_master_prompt failing_env ''text'' [] sample_world) =
     JObj [(''error'', JStr ''The language model failed to structure the text. Error: 503 Server Error: Service Unavailable for url: http://ollama:11434/api/generate'')] \<and>
   process_documents_task failing_env [(''file_0'', ''id.png'', ''img'')] ''passport'' sample_world =
     (Inl (Exception (JStr ''The language model failed to structure the text. Error: 503 Server Error: Service Unavailable for url: http://ollama:11434/api/generate'')),
      sample_world\<lparr>events :=
        [Progress ''Cleaning images & performing high-accuracy OCR...'', Ocr_call ''Jimg'',
         Progress ''AI is analyzing and structuring the document...'',
         Generate_call ''PROMPT \<newline>--- TEXT FROM PAGE/IMAGE 1 ---\<newline>'' [''b64:Jimg'']]\<rparr>)"
proof -
  let ?r = "\<lparr>status_code = 503, reason = ''Service Unavailable'', body = []\<rparr>"
  let ?e = "''503 Server Error: Service Unavailable for url: http://ollama:11434/api/generate''"
  let ?d = "[(''file_0'', ''id.png'', ''img'')]"
  let ?w2 = "sample_world\<lparr>events :=
        [Progress ''Cleaning images & performing high-accuracy OCR...'', Ocr_call ''Jimg'']\<rparr>"
  let ?w4 = "sample_world\<lparr>events :=
        [Progress ''Cleaning images & performing high-accuracy OCR...'', Ocr_call ''Jimg'',
         Progress ''AI is analyzing and structuring the document...'',
         Generate_call ''PROMPT \<newline>--- TEXT FROM PAGE/IMAGE 1 ---\<newline>'' [''b64:Jimg'']]\<rparr>"
  let ?v = "JStr (''The language model failed to structure the text. Error: '' @ ?e)"
  have post: "requests_post failing_env (master_prompt failing_env ''text'') [] = Post_returns ?r"
    by (simp add: env_defs)
  have st: "raise_for_status ?r = Some ?e"
    by (simp add: raise_for_status_def OLLAMA_API_URL_def text_defs)
  have rf: "read_files failing_env ?d (sort (map fst ?d)) ([], []) = Inr ([''Jimg''], [''img''])"
    by (simp add: env_defs text_defs step_defs)
  have ex: "extract_text_with_paddleocr failing_env [''Jimg'']
      (update_state ''Cleaning images & performing high-accuracy OCR...'' sample_world) =
      (''\<newline>--- TEXT FROM PAGE/IMAGE 1 ---\<newline>'', ?w2)"
    by (simp add: env_defs text_defs step_defs)
  have sd: "structure_data_with_master_prompt failing_env ''\<newline>--- TEXT FROM PAGE/IMAGE 1 ---\<newline>''
      (map (b64encode failing_env) [''Jimg''])
      (update_state ''AI is analyzing and structuring the document...'' ?w2) =
      (JObj [(''error'', ?v)], ?w4)"
    by (simp add: env_defs text_defs step_defs)
  have er: "map_of [(''error'', ?v)] ''error'' = Some ?v" by simp
  note inst = structuring_failure_aborts_run
    [of failing_env "''text''" "[]" ?e sample_world ?r ?d "[''Jimg'']" "[''img'']" sample_world
      "''\<newline>--- TEXT FROM PAGE/IMAGE 1 ---\<newline>''" ?w2 "[(''error'', ?v)]" ?w4 ?v "''passport''"]
  from inst post st have a: "fst (structure_data_with_master_prompt failing_env ''text'' [] sample_world) =
      JObj [(''error'', JStr (''The language model failed to structure the text. Error: '' @ ?e))]"
    by blast
  from inst rf ex sd er have b: "process_documents_task failing_env ?d ''passport'' sample_world =
      (Inl (Exception ?v), ?w4)" by blast
  from post have "requests_post failing_env ''PROMPT text'' [] = Post_returns ?r"
    by (simp add: env_defs)
  with a b show ?thesis by simp
qed

theorem files_decoded_in_key_order_witness:
  "distinct (map fst [(''file_1'', ''b.PDF'', ''two-pages''), (''file_0'', ''a.png'', ''img''),
                      (''file_2'', ''c.pdf'', ''corrupt'')]) \<and>
   read_files sample_env
     [(''file_1'', ''b.PDF'', ''two-pages''), (''file_0'', ''a.png'', ''img''), (''file_2'', ''c.pdf'', ''corrupt'')]
     (sort (map fst [(''file_1'', ''b.PDF'', ''two-pages''), (''file_0'', ''a.png'', ''img''),
                     (''file_2'', ''c.pdf'', ''corrupt'')]))
     ([], []) = Inr ([''Jimg'', ''Jp1'', ''Jp2''], [''img'', ''two-pages'', ''corrupt'']) \<and>
   sort_key fst [(''file_1'', ''b.PDF'', ''two-pages''), (''file_0'', ''a.png'', ''img''),
                 (''file_2'', ''c.pdf'', ''corrupt'')] =
     [(''file_0'', ''a.png'', ''img''), (''file_1'', ''b.PDF'', ''two-pages''), (''file_2'', ''c.pdf'', ''corrupt'')] \<and>
   events (snd (process_documents_task sample_env
     [(''file_1'', ''b.PDF'', ''two-pages''), (''file_0'', ''a.png'', ''img''), (''file_2'', ''c.pdf'', ''corrupt'')]
     ''passport'' sample_world)) =
     [Progress ''Cleaning images & performing high-accuracy OCR...'',
      Ocr_call ''Jimg'', Ocr_call ''Jp1'', Ocr_call ''Jp2'',
      Progress ''AI is analyzing and structuring the document...'',
      Generate_call
        ''PROMPT \<newline>--- TEXT FROM PAGE/IMAGE 1 ---\<newline>\<newline>--- TEXT FROM PAGE/IMAGE 2 ---\<newline>NAME\<newline>15/03/1990\<newline>--- TEXT FROM PAGE/IMAGE 3 ---\<newline>''
        [''b64:Jimg'', ''b64:Jp1'', ''b64:Jp2''],
      Progress ''Validating and formatting final data...'',
      Progress ''Detecting faces...'', Detect_call ''Jimg'', Detect_call ''Jp2'',
      Progress ''Saving to database...''] \<and>
   process_file_input sample_env ''img'' ''a.png'' = [''Jimg''] \<and>
   process_file_input sample_env ''corrupt'' ''c.pdf'' = [] \<and>
   process_file_input sample_env ''torn'' ''t.pdf'' = [''Jp1'']"
proof -
  let ?d = "[(''file_1'', ''b.PDF'', ''two-pages''), (''file_0'', ''a.png'', ''img''),
             (''file_2'', ''c.pdf'', ''corrupt'')]"
  have dist: "distinct (map fst ?d)" by simp
  have sk: "sort_key fst ?d =
     [(''file_0'', ''a.png'', ''img''), (''file_1'', ''b.PDF'', ''two-pages''), (''file_2'', ''c.pdf'', ''corrupt'')]"
    by simp
  from files_decoded_in_key_order [of ?d sample_env] dist
  have "read_files sample_env ?d (sort (map fst ?d)) ([], []) =
        Inr (concat (map (decode_file sample_env) (sort_key fst ?d)), map raw_bytes (sort_key fst ?d))"
    by blast
  then have rf: "read_files sample_env ?d (sort (map fst ?d)) ([], []) =
      Inr ([''Jimg'', ''Jp1'', ''Jp2''], [''img'', ''two-pages'', ''corrupt''])"
    unfolding sk by (simp add: decode_file_def raw_bytes_def env_defs text_defs step_defs)
  have ev: "events (snd (process_documents_task sample_env ?d ''passport'' sample_world)) =
     [Progress ''Cleaning images & performing high-accuracy OCR...'',
      Ocr_call ''Jimg'', Ocr_call ''Jp1'', Ocr_call ''Jp2'',
      Progress ''AI is analyzing and structuring the document...'',
      Generate_call
        ''PROMPT \<newline>--- TEXT FROM PAGE/IMAGE 1 ---\<newline>\<newline>--- TEXT FROM PAGE/IMAGE 2 ---\<newline>NAME\<newline>15/03/1990\<newline>--- TEXT FROM PAGE/IMAGE 3 ---\<newline>''
        [''b64:Jimg'', ''b64:Jp1'', ''b64:Jp2''],
      Progress ''Validating and formatting final data...'',
      Progress ''Detecting faces...'', Detect_call ''Jimg'', Detect_call ''Jp2'',
      Progress ''Saving to database...'']"
    by (simp add: env_defs text_defs step_defs)
  have "process_file_input sample_env ''img'' ''a.png'' = [''Jimg'']"
    "process_file_input sample_env ''corrupt'' ''c.pdf'' = []"
    "process_file_input sample_env ''torn'' ''t.pdf'' = [''Jp1'']"
    by (simp_all add: env_defs text_defs step_defs)
  with dist rf sk ev show ?thesis by simp
qed

text \<open>
  Claim C8 as stated fails: the rendering of the document \<open>''torn''\<close> fails at its second
  page, and the file contributes its first page, not zero pictures.
\<close>

theorem torn_pdf_contributes_a_page:
  "fitz_open sample_env ''torn'' = Some [Some ''p1'', None, Some ''p3''] \<and>
   process_file_input sample_env ''torn'' ''scan.pdf'' = [''Jp1''] \<and>
   process_file_input sample_env ''torn'' ''scan.pdf'' \<noteq> []"
  by (simp add: env_defs text_defs step_defs)

text \<open>
  Claim C4 as stated fails: a reply of status 300, which is not a 2xx status, with a
  well-formed body is structured like any other, and the run succeeds.
\<close>

theorem redirect_reply_is_not_an_error:
  "requests_post redirect_env ''PROMPT text'' [] =
     Post_returns \<lparr>status_code = 300, reason = ''Multiple Choices'', body = ''B''\<rparr> \<and>
   fst (structure_data_with_master_prompt redirect_env ''text'' [] sample_world) =
     JObj [(''date_of_birth'', JStr ''15/03/1990'')] \<and>
   fst (process_documents_task redirect_env [(''file_0'', ''id.png'', ''img'')] ''passport'' sample_world) = Inr 1"
  by (simp add: env_defs text_defs step_defs)

end
